theory Spec2Isabelle
  imports Complex_Main "HOL-Library.Char_ord" "HOL-Library.List_Lexorder"
begin

section \<open>Python text\<close>

text \<open>
  Text is modelled as \<^typ>\<open>string\<close>, one \<^typ>\<open>char\<close> per character, for ASCII text:
  the character classes and the case mappings below are those of Python's \<^verbatim>\<open>str\<close> on
  the code points 0 to 127 (\<^verbatim>\<open>str.isspace\<close> holds of tab, line feed, vertical tab, form
  feed, carriage return, the four separators 0x1C to 0x1F and the space). Characters
  outside ASCII are left alone by every function here, so a statement about text is a
  statement about ASCII text.
\<close>

definition whitespace :: string where
  "whitespace = [CHR 0x09, CHR 0x0A, CHR 0x0B, CHR 0x0C, CHR 0x0D,
                 CHR 0x1C, CHR 0x1D, CHR 0x1E, CHR 0x1F, CHR 0x20]"

definition ascii_uppercase :: string where
  "ascii_uppercase = ''ABCDEFGHIJKLMNOPQRSTUVWXYZ''"

definition ascii_lowercase :: string where
  "ascii_lowercase = ''abcdefghijklmnopqrstuvwxyz''"

definition isspace :: "char \<Rightarrow> bool" where
  "isspace c = (c \<in> set whitespace)"

definition isalpha :: "char \<Rightarrow> bool" where
  "isalpha c = (c \<in> set (ascii_uppercase @ ascii_lowercase))"

definition lower_char :: "char \<Rightarrow> char" where
  "lower_char c =
     (case map_of (zip ascii_uppercase ascii_lowercase) c of Some d \<Rightarrow> d | None \<Rightarrow> c)"

definition upper_char :: "char \<Rightarrow> char" where
  "upper_char c =
     (case map_of (zip ascii_lowercase ascii_uppercase) c of Some d \<Rightarrow> d | None \<Rightarrow> c)"

definition str_lower :: "string \<Rightarrow> string" where
  "str_lower s = map lower_char s"

definition str_upper :: "string \<Rightarrow> string" where
  "str_upper s = map upper_char s"

definition str_lstrip :: "string \<Rightarrow> string" where
  "str_lstrip s = dropWhile isspace s"

definition str_strip :: "string \<Rightarrow> string" where
  "str_strip s = rev (dropWhile isspace (rev (dropWhile isspace s)))"

definition startswith :: "string \<Rightarrow> string \<Rightarrow> bool" where
  "startswith s p = (take (length p) s = p)"

definition endswith :: "string \<Rightarrow> string \<Rightarrow> bool" where
  "endswith s p = (length p \<le> length s \<and> drop (length s - length p) s = p)"

text \<open>\<^verbatim>\<open>sub in s\<close>: \<^verbatim>\<open>sub\<close> occurs in \<^verbatim>\<open>s\<close> as a contiguous run.\<close>

fun contains :: "string \<Rightarrow> string \<Rightarrow> bool" where
  "contains [] sub = (sub = [])"
| "contains (c # cs) sub = (startswith (c # cs) sub \<or> contains cs sub)"

text \<open>
  \<^verbatim>\<open>s.replace(old, new)\<close> for a pattern \<^verbatim>\<open>old\<close> of one character, the only form the
  source uses.
\<close>

definition replace :: "string \<Rightarrow> char \<Rightarrow> string \<Rightarrow> string" where
  "replace s old new = concat (map (\<lambda>c. if c = old then new else [c]) s)"

text \<open>\<^verbatim>\<open>sep.join(xs)\<close>.\<close>

fun str_join :: "string \<Rightarrow> string list \<Rightarrow> string" where
  "str_join sep [] = []"
| "str_join sep [x] = x"
| "str_join sep (x # y # ys) = x @ sep @ str_join sep (y # ys)"

text \<open>\<^verbatim>\<open>s.split()\<close>: the maximal runs of characters that are not whitespace.\<close>

function str_split :: "string \<Rightarrow> string list" where
  "str_split [] = []"
| "str_split (c # cs) =
     (if isspace c then str_split cs
      else (c # takeWhile (\<lambda>x. \<not> isspace x) cs)
             # str_split (dropWhile (\<lambda>x. \<not> isspace x) cs))"
  by pat_completeness auto
termination
  by (relation "measure length") (auto simp: le_imp_less_Suc length_dropWhile_le)

text \<open>
  \<^verbatim>\<open>xs[i:j]\<close> for integers \<^verbatim>\<open>i\<close> and \<^verbatim>\<open>j\<close>: a negative index counts from the end,
  and both are clamped to the list.
\<close>

definition slice_index :: "nat \<Rightarrow> int \<Rightarrow> nat" where
  "slice_index n i = (if i < 0 then nat (max 0 (int n + i)) else min n (nat i))"

definition py_slice :: "'a list \<Rightarrow> int \<Rightarrow> int \<Rightarrow> 'a list" where
  "py_slice xs i j =
     (let a = slice_index (length xs) i; b = slice_index (length xs) j
      in take (b - a) (drop a xs))"

section \<open>Exceptions\<close>

datatype error =
    ValueError | TypeError | RecursionError | OverflowError | IntegrityError | ValidationError

section \<open>Chunking of a transcript (\<^verbatim>\<open>TranscriptProcessor.process_transcript\<close>)\<close>

text \<open>
  \<^verbatim>\<open>range(start, stop, step)\<close> as a list. A zero step raises \<^verbatim>\<open>ValueError\<close>; a positive
  step counts up while below \<^verbatim>\<open>stop\<close>, a negative one counts down while above it.
\<close>

function range_up :: "int \<Rightarrow> int \<Rightarrow> int \<Rightarrow> int list" where
  "range_up i stop step =
     (if 0 < step \<and> i < stop then i # range_up (i + step) stop step else [])"
  by pat_completeness auto
termination
  by (relation "measure (\<lambda>(i, stop, step). nat (stop - i))") auto

function range_down :: "int \<Rightarrow> int \<Rightarrow> int \<Rightarrow> int list" where
  "range_down i stop step =
     (if step < 0 \<and> stop < i then i # range_down (i + step) stop step else [])"
  by pat_completeness auto
termination
  by (relation "measure (\<lambda>(i, stop, step). nat (i - stop))") auto

declare range_up.simps [simp del] range_down.simps [simp del]

definition py_range :: "int \<Rightarrow> int \<Rightarrow> int \<Rightarrow> error + int list" where
  "py_range start stop step =
     (if step = 0 then Inl ValueError
      else if 0 < step then Inr (range_up start stop step)
      else Inr (range_down start stop step))"

text \<open>
  The chunking step of \<^verbatim>\<open>process_transcript\<close>, on the \<^verbatim>\<open>chunk_size\<close> and \<^verbatim>\<open>overlap\<close>
  in force when it is reached:
  \<^verbatim>\<open>
  step = chunk_size - overlap
  if step <= 0:
      overlap = max(0, chunk_size - 100)
      step = chunk_size - overlap
  chunks = [text[i:i+chunk_size] for i in range(0, len(text), step)]
  \<close>
\<close>

definition chunk_step :: "int \<Rightarrow> int \<Rightarrow> int" where
  "chunk_step chunk_size overlap =
     (let step = chunk_size - overlap
      in if step \<le> 0 then chunk_size - max 0 (chunk_size - 100) else step)"

definition split_chunks :: "string \<Rightarrow> int \<Rightarrow> int \<Rightarrow> error + string list" where
  "split_chunks text chunk_size overlap =
     (case py_range 0 (int (length text)) (chunk_step chunk_size overlap) of
        Inl e \<Rightarrow> Inl e
      | Inr starts \<Rightarrow> Inr (map (\<lambda>i. py_slice text i (i + chunk_size)) starts))"

section \<open>Stripping a code fence (\<^verbatim>\<open>TranscriptProcessor._strip_code_fence\<close>)\<close>

definition strip_code_fence :: "string \<Rightarrow> string" where
  "strip_code_fence payload =
     (let trimmed = str_strip payload in
      if \<not> startswith trimmed ''```'' then trimmed
      else
        let trimmed = drop 3 trimmed;
            trimmed = (if startswith (str_lower (str_lstrip trimmed)) ''json''
                       then drop 4 (str_lstrip trimmed) else trimmed);
            trimmed = (if endswith trimmed ''```''
                       then take (length trimmed - 3) trimmed else trimmed)
        in str_strip trimmed)"

section \<open>Task suggestions (\<^verbatim>\<open>JiraTaskSuggestion\<close>, \<^verbatim>\<open>_post_process_tasks\<close>)\<close>

record JiraTaskSuggestion =
  summary :: string
  description :: string
  priority :: string
  type :: string
  assignee :: string
  assignee_account_id :: "string option"
  labels :: "string list option"
  related_issues :: "string list option"

text \<open>
  The field validators. \<^verbatim>\<open>valid_words < len(words) * 0.5\<close> compares an integer with an
  exact half, which is \<^verbatim>\<open>2 * valid_words < len(words)\<close>.
\<close>

definition valid_word :: "string \<Rightarrow> bool" where
  "valid_word w = (2 \<le> length w \<and> (case w of [] \<Rightarrow> False | c # _ \<Rightarrow> isalpha c))"

definition validate_summary :: "string \<Rightarrow> error + string" where
  "validate_summary v =
     (if v = [] \<or> length (str_strip v) < 10 then Inl ValidationError
      else
        let words = str_split v in
        if length words < 2 then Inl ValidationError
        else
          let valid_words = length (filter valid_word words) in
          if 2 * valid_words < length words then Inl ValidationError
          else Inr (str_strip v))"

definition validate_description :: "string \<Rightarrow> error + string" where
  "validate_description v =
     (if v = [] \<or> length (str_strip v) < 20 then Inl ValidationError else Inr (str_strip v))"

definition priority_map :: "(string \<times> string) list" where
  "priority_map =
     [(''high'', ''High''), (''highest'', ''Highest''), (''critical'', ''Highest''),
      (''medium'', ''Medium''), (''normal'', ''Medium''),
      (''low'', ''Low''), (''lowest'', ''Lowest''), (''minor'', ''Low'')]"

definition validate_priority :: "string \<Rightarrow> string" where
  "validate_priority v =
     (let v = str_strip v
      in case map_of priority_map (str_lower v) of Some p \<Rightarrow> p | None \<Rightarrow> v)"

definition type_map :: "(string \<times> string) list" where
  "type_map =
     [(''bug'', ''Bug''), (''defect'', ''Bug''), (''error'', ''Bug''),
      (''task'', ''Task''), (''action item'', ''Task''),
      (''story'', ''Story''), (''user story'', ''Story''), (''feature'', ''Story''),
      (''epic'', ''Epic''),
      (''improvement'', ''Improvement''), (''enhancement'', ''Improvement'')]"

definition validate_type :: "string \<Rightarrow> string" where
  "validate_type v =
     (let v = str_strip v
      in case map_of type_map (str_lower v) of Some normalized \<Rightarrow> normalized | None \<Rightarrow> v)"

text \<open>
  Constructing a \<^verbatim>\<open>JiraTaskSuggestion\<close> runs the validators of all four fields and
  raises a validation error when one of them does.
\<close>

definition JiraTaskSuggestion_init ::
  "string \<Rightarrow> string \<Rightarrow> string \<Rightarrow> string \<Rightarrow> string \<Rightarrow> string option \<Rightarrow> string list option \<Rightarrow>
   string list option \<Rightarrow> error + JiraTaskSuggestion" where
  "JiraTaskSuggestion_init s d p t a account_id ls related =
     (case validate_summary s of
        Inl e \<Rightarrow> Inl ValidationError
      | Inr s' \<Rightarrow>
          (case validate_description d of
             Inl e \<Rightarrow> Inl ValidationError
           | Inr d' \<Rightarrow>
               Inr \<lparr>summary = s', description = d', priority = validate_priority p,
                    type = validate_type t, assignee = a, assignee_account_id = account_id,
                    labels = ls, related_issues = related\<rparr>))"

text \<open>
  \<^verbatim>\<open>n * 0.7\<close> in double precision. The double nearest to 0.7 is 3152519739159347 / 2^52;
  the product with an integer is rounded to 53 significant bits, ties to even. The pair
  \<open>(m, e)\<close> stands for \<open>m * 2^e / 2^52\<close>, and an integer is compared with it exactly.
\<close>

fun bit_length :: "nat \<Rightarrow> nat" where
  "bit_length n = (if n = 0 then 0 else Suc (bit_length (n div 2)))"

declare bit_length.simps [simp del]

definition round_half_even :: "nat \<Rightarrow> nat \<Rightarrow> nat" where
  "round_half_even p e =
     (let q = p div 2 ^ e; r = p mod 2 ^ e
      in if 2 ^ e < 2 * r \<or> (2 * r = 2 ^ e \<and> odd q) then q + 1 else q)"

definition times_0_7 :: "nat \<Rightarrow> nat \<times> nat" where
  "times_0_7 n =
     (let p = n * 3152519739159347; e = bit_length p - 53 in (round_half_even p e, e))"

definition lt_times_0_7 :: "nat \<Rightarrow> nat \<Rightarrow> bool" where
  "lt_times_0_7 a n = (case times_0_7 n of (m, e) \<Rightarrow> a * 2 ^ 52 < m * 2 ^ e)"

definition gt_times_0_7 :: "nat \<Rightarrow> nat \<Rightarrow> bool" where
  "gt_times_0_7 a n = (case times_0_7 n of (m, e) \<Rightarrow> m * 2 ^ e < a * 2 ^ 52)"

definition common_words :: "string list" where
  "common_words =
     [''the'', ''a'', ''an'', ''is'', ''are'', ''was'', ''were'', ''be'', ''been'',
      ''to'', ''for'', ''and'', ''or'', ''but'', ''in'', ''on'', ''at'', ''with'',
      ''fix'', ''add'', ''update'', ''create'', ''implement'', ''bug'', ''error'',
      ''issue'', ''user'', ''system'', ''data'', ''page'', ''api'', ''not'', ''no'']"

definition odd_word :: "string \<Rightarrow> bool" where
  "odd_word word =
     (3 < length word \<and> str_lower word \<notin> set common_words \<and>
      (let vowels = length (filter (\<lambda>c. c \<in> set ''aeiou'') (str_lower word))
       in vowels = 0 \<or> gt_times_0_7 vowels (length word)))"

definition is_valid_english :: "string \<Rightarrow> bool" where
  "is_valid_english text =
     (if text = [] \<or> length text < 5 then False
      else
        let words = str_split text in
        if length words < 2 then False
        else if \<not> list_ex (\<lambda>w. w \<in> set common_words) (map str_lower words) then
          (if lt_times_0_7 (length (filter isalpha text)) (length text) then False
           else \<not> list_ex odd_word words)
        else True)"

definition action_verbs :: "string list" where
  "action_verbs =
     [''fix'', ''implement'', ''add'', ''update'', ''create'', ''resolve'',
      ''investigate'', ''review'', ''remove'', ''refactor'', ''improve'',
      ''configure'', ''setup'', ''set up'', ''deploy'', ''migrate'', ''test'',
      ''debug'', ''optimize'', ''enable'', ''disable'', ''address'']"

definition first_word :: "string \<Rightarrow> string" where
  "first_word s = (case str_split s of [] \<Rightarrow> [] | w # _ \<Rightarrow> str_lower w)"

definition with_verb :: "string \<Rightarrow> string \<Rightarrow> string" where
  "with_verb task_type s =
     (if first_word s \<notin> set action_verbs then
        (if contains (str_lower task_type) ''bug'' \<or> contains (str_lower s) ''error''
            \<or> contains (str_lower s) ''issue''
         then ''Fix '' @ s
         else if contains (str_lower s) ''outage'' \<or> contains (str_lower s) ''down''
         then ''Resolve '' @ s
         else ''Address '' @ s)
      else s)"

definition capitalize :: "string \<Rightarrow> string" where
  "capitalize s = (case s of [] \<Rightarrow> [] | c # cs \<Rightarrow> upper_char c # cs)"

definition fix_type :: "string \<Rightarrow> string \<Rightarrow> string" where
  "fix_type task_type s =
     (if str_lower task_type = ''epic'' then
        (if contains (str_lower s) ''outage'' \<or> contains (str_lower s) ''bug''
            \<or> contains (str_lower s) ''error'' \<or> contains (str_lower s) ''fix''
         then ''Bug'' else ''Task'')
      else task_type)"

definition fix_priority :: "string \<Rightarrow> string \<Rightarrow> string" where
  "fix_priority p d =
     (let desc_lower = str_lower d in
      if contains desc_lower ''outage'' \<or> contains desc_lower ''blocking''
         \<or> contains desc_lower ''down'' \<or> contains desc_lower ''500''
      then (if str_lower p \<in> set [''low'', ''lowest'', ''medium''] then ''High'' else p)
      else p)"

text \<open>
  One turn of the loop of \<^verbatim>\<open>_post_process_tasks\<close>: what it appends to \<^verbatim>\<open>processed\<close>. A
  summary that fails the English check is skipped; when constructing the cleaned task
  raises, the original task is appended instead.
\<close>

definition post_process_task :: "JiraTaskSuggestion \<Rightarrow> JiraTaskSuggestion list" where
  "post_process_task task =
     (let s = str_strip (summary task) in
      if \<not> is_valid_english s then []
      else
        let s = capitalize (with_verb (type task) s);
            issue_type = fix_type (type task) s;
            p = fix_priority (priority task) (description task)
        in case JiraTaskSuggestion_init s (description task) p issue_type (assignee task)
                  (assignee_account_id task) (labels task) (related_issues task) of
             Inr cleaned_task \<Rightarrow> [cleaned_task]
           | Inl e \<Rightarrow> [task])"

fun post_process_tasks :: "JiraTaskSuggestion list \<Rightarrow> JiraTaskSuggestion list" where
  "post_process_tasks [] = []"
| "post_process_tasks (task # tasks) = post_process_task task @ post_process_tasks tasks"

text \<open>A task as the constructor leaves it: constructing it again from its fields gives it back.\<close>

definition validated :: "JiraTaskSuggestion \<Rightarrow> bool" where
  "validated t =
     (JiraTaskSuggestion_init (summary t) (description t) (priority t) (type t) (assignee t)
        (assignee_account_id t) (labels t) (related_issues t) = Inr t)"

section \<open>The tables of the persistence manager (\<^verbatim>\<open>DatabaseManager\<close>)\<close>

text \<open>
  Each table of \<^verbatim>\<open>_legacy_init_db\<close> is the list of its rows in insertion order, a row is
  a record of its columns, and a column that may hold \<^verbatim>\<open>NULL\<close> is an \<^typ>\<open>'a option\<close>.
  The foreign keys to \<^verbatim>\<open>meetings\<close> are declared but the source never switches their
  enforcement on, so they constrain nothing.

  A Python \<^verbatim>\<open>float\<close> is a finite number, an infinity or a NaN; it is only ever stored and
  read back, never computed with. Binding a parameter to a statement stores a NaN as
  \<^verbatim>\<open>NULL\<close>, and raises \<^verbatim>\<open>OverflowError\<close>, before the statement runs, on an integer outside
  the signed 64-bit range of an \<^verbatim>\<open>INTEGER\<close>.
\<close>

datatype pyfloat = Finite real | PosInf | NegInf | NaN

definition bind_real :: "pyfloat \<Rightarrow> pyfloat option" where
  "bind_real x = (if x = NaN then None else Some x)"

definition bind_optional_real :: "pyfloat option \<Rightarrow> pyfloat option" where
  "bind_optional_real x = (case x of None \<Rightarrow> None | Some v \<Rightarrow> bind_real v)"

definition in_int64 :: "int \<Rightarrow> bool" where
  "in_int64 n = (- (2 ^ 63) \<le> n \<and> n < 2 ^ 63)"

record process_row =
  sp_meeting_id :: string
  sp_status :: string
  sp_created_at :: string
  sp_updated_at :: string
  sp_error :: "string option"
  sp_result :: "string option"
  sp_start_time :: "string option"
  sp_end_time :: "string option"
  sp_chunk_count :: "int option"
  sp_processing_time :: "pyfloat option"
  sp_metadata :: "string option"

record chunk_row =
  tc_meeting_id :: string
  tc_meeting_name :: "string option"
  tc_transcript_text :: string
  tc_model :: string
  tc_model_name :: string
  tc_chunk_size :: "int option"
  tc_overlap :: "int option"
  tc_created_at :: string

record transcript_row =
  tr_id :: "string option"
  tr_meeting_id :: string
  tr_transcript :: string
  tr_timestamp :: string
  tr_summary :: "string option"
  tr_action_items :: "string option"
  tr_key_points :: "string option"
  tr_audio_start_time :: "pyfloat option"
  tr_audio_end_time :: "pyfloat option"
  tr_duration :: "pyfloat option"

record settings_row =
  st_id :: string
  st_provider :: string
  st_model :: string
  st_whisperModel :: string
  st_groqApiKey :: "string option"
  st_openaiApiKey :: "string option"
  st_anthropicApiKey :: "string option"
  st_ollamaApiKey :: "string option"
  st_geminiApiKey :: "string option"

record jira_row =
  js_id :: string
  js_url :: string
  js_email :: string
  js_api_token :: string
  js_default_project_key :: "string option"
  js_default_issue_type :: "string option"

record database =
  summary_processes :: "process_row list"
  transcript_chunks :: "chunk_row list"
  transcripts :: "transcript_row list"
  settings :: "settings_row list"
  jira_settings :: "jira_row list"

text \<open>
  \<^verbatim>\<open>UPDATE t SET ... WHERE p\<close> rewrites every row that satisfies \<^verbatim>\<open>p\<close>; the number of
  rows it touched is what \<^verbatim>\<open>conn.total_changes\<close> and \<^verbatim>\<open>cursor.rowcount\<close> report on the
  fresh connection each operation opens. \<^verbatim>\<open>INSERT\<close> appends a row and fails with an
  integrity error when the primary key is already present.
\<close>

definition sql_update :: "('r \<Rightarrow> bool) \<Rightarrow> ('r \<Rightarrow> 'r) \<Rightarrow> 'r list \<Rightarrow> 'r list" where
  "sql_update p f rows = map (\<lambda>r. if p r then f r else r) rows"

definition sql_changes :: "('r \<Rightarrow> bool) \<Rightarrow> 'r list \<Rightarrow> nat" where
  "sql_changes p rows = length (filter p rows)"

definition sql_insert :: "('r \<Rightarrow> 'k) \<Rightarrow> 'r \<Rightarrow> 'r list \<Rightarrow> error + 'r list" where
  "sql_insert key r rows =
     (if key r \<in> set (map key rows) then Inl IntegrityError else Inr (rows @ [r]))"

text \<open>\<^verbatim>\<open>cursor.fetchone()\<close>: the first row of a result, or \<^verbatim>\<open>None\<close>.\<close>

definition fetchone :: "'r list \<Rightarrow> 'r option" where
  "fetchone rows = (case rows of [] \<Rightarrow> None | r # _ \<Rightarrow> Some r)"

subsection \<open>\<^verbatim>\<open>create_process\<close>\<close>

text \<open>
  The clock reading \<^verbatim>\<open>datetime.utcnow().isoformat()\<close> is the argument \<^verbatim>\<open>now\<close>. An
  exception inside the transaction rolls it back, so a failed operation leaves the
  database it was given: \<^verbatim>\<open>Inl\<close> carries no new state.
\<close>

definition new_process_row :: "string \<Rightarrow> string \<Rightarrow> process_row" where
  "new_process_row meeting_id now =
     \<lparr>sp_meeting_id = meeting_id, sp_status = ''PENDING'', sp_created_at = now,
      sp_updated_at = now, sp_error = None, sp_result = None, sp_start_time = Some now,
      sp_end_time = None, sp_chunk_count = Some 0, sp_processing_time = Some (Finite 0),
      sp_metadata = None\<rparr>"

definition create_process :: "string \<Rightarrow> string \<Rightarrow> database \<Rightarrow> error + string \<times> database" where
  "create_process now meeting_id db =
     (let p = (\<lambda>r. sp_meeting_id r = meeting_id);
          rows = sql_update p
                   (\<lambda>r. r\<lparr>sp_status := ''PENDING'', sp_updated_at := now,
                          sp_start_time := Some now, sp_error := None, sp_result := None\<rparr>)
                   (summary_processes db)
      in if sql_changes p (summary_processes db) = 0
         then (case sql_insert sp_meeting_id (new_process_row meeting_id now) rows of
                 Inl e \<Rightarrow> Inl e
               | Inr rows' \<Rightarrow> Inr (meeting_id, db\<lparr>summary_processes := rows'\<rparr>))
         else Inr (meeting_id, db\<lparr>summary_processes := rows\<rparr>))"

subsection \<open>\<^verbatim>\<open>update_process\<close>\<close>

text \<open>
  \<^verbatim>\<open>result\<close> and \<^verbatim>\<open>metadata\<close> are dictionaries, kept as association lists; an empty
  one is falsy, as is an empty string. \<^verbatim>\<open>json.dumps\<close> belongs to the standard library
  and is the parameter \<^verbatim>\<open>dumps\<close>: it returns the text or the exception it raised.
\<close>

datatype assignment =
    SetStatus string
  | SetUpdatedAt string
  | SetResult string
  | SetError string
  | SetChunkCount int
  | SetProcessingTime pyfloat
  | SetMetadata string
  | SetEndTime string

fun assign :: "assignment \<Rightarrow> process_row \<Rightarrow> process_row" where
  "assign (SetStatus v) r = r\<lparr>sp_status := v\<rparr>"
| "assign (SetUpdatedAt v) r = r\<lparr>sp_updated_at := v\<rparr>"
| "assign (SetResult v) r = r\<lparr>sp_result := Some v\<rparr>"
| "assign (SetError v) r = r\<lparr>sp_error := Some v\<rparr>"
| "assign (SetChunkCount v) r = r\<lparr>sp_chunk_count := Some v\<rparr>"
| "assign (SetProcessingTime v) r = r\<lparr>sp_processing_time := bind_real v\<rparr>"
| "assign (SetMetadata v) r = r\<lparr>sp_metadata := Some v\<rparr>"
| "assign (SetEndTime v) r = r\<lparr>sp_end_time := Some v\<rparr>"

definition truthy :: "'a list option \<Rightarrow> bool" where
  "truthy x = (case x of None \<Rightarrow> False | Some v \<Rightarrow> v \<noteq> [])"

definition sanitize_error :: "string \<Rightarrow> string" where
  "sanitize_error e = take 1000 (replace (replace e (CHR 0x0A) '' '') (CHR 0x0D) [])"

text \<open>
  The list \<^verbatim>\<open>update_fields\<close> with its \<^verbatim>\<open>params\<close>, in the order the source appends
  them. A \<^verbatim>\<open>TypeError\<close> or \<^verbatim>\<open>ValueError\<close> from serialising \<^verbatim>\<open>result\<close> is raised again as
  \<^verbatim>\<open>ValueError\<close>; from serialising \<^verbatim>\<open>metadata\<close> it is logged and the column is left out.
  Any other exception leaves the \<^verbatim>\<open>try\<close> block as it is.
\<close>

definition result_fields ::
  "(('k \<times> 'v) list \<Rightarrow> error + string) \<Rightarrow> ('k \<times> 'v) list option \<Rightarrow> assignment list \<Rightarrow>
   error + assignment list" where
  "result_fields dumps result flds =
     (case result of
        None \<Rightarrow> Inr flds
      | Some d \<Rightarrow>
          if d = [] then Inr flds
          else (case dumps d of
                  Inr result_json \<Rightarrow> Inr (flds @ [SetResult result_json])
                | Inl e \<Rightarrow> if e = TypeError \<or> e = ValueError then Inl ValueError else Inl e))"

definition metadata_fields ::
  "(('k \<times> 'v) list \<Rightarrow> error + string) \<Rightarrow> ('k \<times> 'v) list option \<Rightarrow> assignment list \<Rightarrow>
   error + assignment list" where
  "metadata_fields dumps metadata flds =
     (case metadata of
        None \<Rightarrow> Inr flds
      | Some d \<Rightarrow>
          if d = [] then Inr flds
          else (case dumps d of
                  Inr metadata_json \<Rightarrow> Inr (flds @ [SetMetadata metadata_json])
                | Inl e \<Rightarrow> if e = TypeError \<or> e = ValueError then Inr flds else Inl e))"

definition update_fields ::
  "(('k \<times> 'v) list \<Rightarrow> error + string) \<Rightarrow> string \<Rightarrow> string \<Rightarrow> ('k \<times> 'v) list option \<Rightarrow>
   string option \<Rightarrow> int option \<Rightarrow> pyfloat option \<Rightarrow> ('k \<times> 'v) list option \<Rightarrow>
   error + assignment list" where
  "update_fields dumps now status result err chunk_count processing_time metadata =
     (case result_fields dumps result [SetStatus status, SetUpdatedAt now] of
        Inl e \<Rightarrow> Inl e
      | Inr flds \<Rightarrow>
          let flds = (case err of
                          None \<Rightarrow> flds
                        | Some e \<Rightarrow> if e = [] then flds
                                    else flds @ [SetError (sanitize_error e)]);
              flds = (case chunk_count of
                          None \<Rightarrow> flds | Some n \<Rightarrow> flds @ [SetChunkCount n]);
              flds = (case processing_time of
                          None \<Rightarrow> flds | Some t \<Rightarrow> flds @ [SetProcessingTime t])
          in (case metadata_fields dumps metadata flds of
                Inl e \<Rightarrow> Inl e
              | Inr flds \<Rightarrow>
                  Inr (if str_upper status = ''COMPLETED'' \<or> str_upper status = ''FAILED''
                       then flds @ [SetEndTime now] else flds)))"

text \<open>
  \<^verbatim>\<open>conn.execute(query, params)\<close> binds the parameters before the \<^verbatim>\<open>UPDATE\<close> runs: a
  \<^verbatim>\<open>chunk_count\<close> outside the signed 64-bit range raises \<^verbatim>\<open>OverflowError\<close>.
\<close>

fun bindable :: "assignment \<Rightarrow> bool" where
  "bindable (SetChunkCount n) = in_int64 n"
| "bindable _ = True"

definition update_process ::
  "(('k \<times> 'v) list \<Rightarrow> error + string) \<Rightarrow> string \<Rightarrow> string \<Rightarrow> string \<Rightarrow>
   ('k \<times> 'v) list option \<Rightarrow> string option \<Rightarrow> int option \<Rightarrow> pyfloat option \<Rightarrow>
   ('k \<times> 'v) list option \<Rightarrow> database \<Rightarrow> error + database" where
  "update_process dumps now meeting_id status result err chunk_count processing_time metadata db =
     (case update_fields dumps now status result err chunk_count processing_time metadata of
        Inl e \<Rightarrow> Inl e
      | Inr flds \<Rightarrow>
          if \<not> list_all bindable flds then Inl OverflowError
          else Inr (db\<lparr>summary_processes :=
                          sql_update (\<lambda>r. sp_meeting_id r = meeting_id) (fold assign flds)
                            (summary_processes db)\<rparr>))"

subsection \<open>\<^verbatim>\<open>save_transcript\<close>\<close>

text \<open>
  The four checks come first and raise \<^verbatim>\<open>ValueError\<close>; then the \<^verbatim>\<open>UPDATE\<close> binds
  \<^verbatim>\<open>chunk_size\<close> and \<^verbatim>\<open>overlap\<close>, which raises \<^verbatim>\<open>OverflowError\<close> outside the signed 64-bit
  range.
\<close>

definition blank :: "string \<Rightarrow> bool" where
  "blank s = (s = [] \<or> str_strip s = [])"

definition save_transcript ::
  "string \<Rightarrow> string \<Rightarrow> string \<Rightarrow> string \<Rightarrow> string \<Rightarrow> int \<Rightarrow> int \<Rightarrow> database \<Rightarrow>
   error + database" where
  "save_transcript now meeting_id transcript_text model model_name chunk_size overlap db =
     (if blank meeting_id then Inl ValueError
      else if blank transcript_text then Inl ValueError
      else if chunk_size \<le> 0 \<or> overlap < 0 then Inl ValueError
      else if length transcript_text > 10000000 then Inl ValueError
      else if \<not> in_int64 chunk_size \<or> \<not> in_int64 overlap then Inl OverflowError
      else
        let p = (\<lambda>r. tc_meeting_id r = meeting_id);
            rows = sql_update p
                     (\<lambda>r. r\<lparr>tc_transcript_text := transcript_text, tc_model := model,
                            tc_model_name := model_name, tc_chunk_size := Some chunk_size,
                            tc_overlap := Some overlap, tc_created_at := now\<rparr>)
                     (transcript_chunks db)
        in if sql_changes p (transcript_chunks db) = 0
           then (case sql_insert tc_meeting_id
                        \<lparr>tc_meeting_id = meeting_id, tc_meeting_name = None,
                         tc_transcript_text = transcript_text, tc_model = model,
                         tc_model_name = model_name, tc_chunk_size = Some chunk_size,
                         tc_overlap = Some overlap, tc_created_at = now\<rparr> rows of
                   Inl e \<Rightarrow> Inl e
                 | Inr rows' \<Rightarrow> Inr (db\<lparr>transcript_chunks := rows'\<rparr>))
           else Inr (db\<lparr>transcript_chunks := rows\<rparr>))"

subsection \<open>\<^verbatim>\<open>save_meeting_transcript\<close>\<close>

text \<open>The row has no \<^verbatim>\<open>id\<close>: the column list of the \<^verbatim>\<open>INSERT\<close> leaves it out.\<close>

definition save_meeting_transcript ::
  "string \<Rightarrow> string \<Rightarrow> string \<Rightarrow> string \<Rightarrow> string \<Rightarrow> string \<Rightarrow> pyfloat option \<Rightarrow>
   pyfloat option \<Rightarrow> pyfloat option \<Rightarrow> database \<Rightarrow> database" where
  "save_meeting_transcript meeting_id transcript timestamp summary_text action_items key_points
       audio_start_time audio_end_time duration db =
     db\<lparr>transcripts := transcripts db @
          [\<lparr>tr_id = None, tr_meeting_id = meeting_id, tr_transcript = transcript,
            tr_timestamp = timestamp, tr_summary = Some summary_text,
            tr_action_items = Some action_items, tr_key_points = Some key_points,
            tr_audio_start_time = bind_optional_real audio_start_time,
            tr_audio_end_time = bind_optional_real audio_end_time,
            tr_duration = bind_optional_real duration\<rparr>]\<rparr>"

subsection \<open>\<^verbatim>\<open>get_transcript_data\<close>\<close>

text \<open>
  A value of a result row, and the dictionary \<^verbatim>\<open>dict(zip(columns, row))\<close> as an
  association list in column order.
\<close>

datatype sqlvalue = SqlNull | SqlText string | SqlInt int

definition opt_text :: "string option \<Rightarrow> sqlvalue" where
  "opt_text x = (case x of None \<Rightarrow> SqlNull | Some s \<Rightarrow> SqlText s)"

definition opt_int :: "int option \<Rightarrow> sqlvalue" where
  "opt_int x = (case x of None \<Rightarrow> SqlNull | Some i \<Rightarrow> SqlInt i)"

text \<open>Python's truth value of \<^verbatim>\<open>d.get(key)\<close>.\<close>

definition sql_truthy :: "sqlvalue option \<Rightarrow> bool" where
  "sql_truthy x =
     (case x of
        None \<Rightarrow> False
      | Some SqlNull \<Rightarrow> False
      | Some (SqlText s) \<Rightarrow> s \<noteq> []
      | Some (SqlInt i) \<Rightarrow> i \<noteq> 0)"

text \<open>
  \<^verbatim>\<open>SELECT t.*, p.status, p.result, p.error FROM transcript_chunks t LEFT JOIN
  summary_processes p ON t.meeting_id = p.meeting_id WHERE t.meeting_id = ?\<close>: each
  chunk row of the meeting with each process row of the same meeting, or once with
  \<^verbatim>\<open>NULL\<close>s when there is none.
\<close>

definition left_join_processes :: "database \<Rightarrow> string \<Rightarrow> (chunk_row \<times> process_row option) list" where
  "left_join_processes db meeting_id =
     concat (map (\<lambda>t. case filter (\<lambda>p. sp_meeting_id p = tc_meeting_id t) (summary_processes db) of
                         [] \<Rightarrow> [(t, None)]
                       | ps \<Rightarrow> map (\<lambda>p. (t, Some p)) ps)
               (filter (\<lambda>t. tc_meeting_id t = meeting_id) (transcript_chunks db)))"

definition status_columns :: "process_row option \<Rightarrow> (string \<times> sqlvalue) list" where
  "status_columns p =
     [(''status'', case p of None \<Rightarrow> SqlNull | Some r \<Rightarrow> SqlText (sp_status r)),
      (''result'', case p of None \<Rightarrow> SqlNull | Some r \<Rightarrow> opt_text (sp_result r)),
      (''error'', case p of None \<Rightarrow> SqlNull | Some r \<Rightarrow> opt_text (sp_error r))]"

definition joined_row :: "chunk_row \<Rightarrow> process_row option \<Rightarrow> (string \<times> sqlvalue) list" where
  "joined_row t p =
     [(''meeting_id'', SqlText (tc_meeting_id t)),
      (''meeting_name'', opt_text (tc_meeting_name t)),
      (''transcript_text'', SqlText (tc_transcript_text t)),
      (''model'', SqlText (tc_model t)),
      (''model_name'', SqlText (tc_model_name t)),
      (''chunk_size'', opt_int (tc_chunk_size t)),
      (''overlap'', opt_int (tc_overlap t)),
      (''created_at'', SqlText (tc_created_at t))] @ status_columns p"

text \<open>
  \<^verbatim>\<open>SELECT transcript, timestamp FROM transcripts WHERE meeting_id = ? ORDER BY timestamp
  ASC\<close>: timestamps are text and compare character by character; rows with equal
  timestamps stay in insertion order.
\<close>

definition segments_by_timestamp :: "database \<Rightarrow> string \<Rightarrow> transcript_row list" where
  "segments_by_timestamp db meeting_id =
     sort_key tr_timestamp (filter (\<lambda>r. tr_meeting_id r = meeting_id) (transcripts db))"

definition get_transcript_data :: "database \<Rightarrow> string \<Rightarrow> (string \<times> sqlvalue) list option" where
  "get_transcript_data db meeting_id =
     (let from_chunks =
            (case fetchone (left_join_processes db meeting_id) of
               None \<Rightarrow> None
             | Some (t, p) \<Rightarrow>
                 let result = joined_row t p
                 in if sql_truthy (map_of result ''transcript_text'') then Some result else None)
      in case from_chunks of
           Some result \<Rightarrow> Some result
         | None \<Rightarrow>
             let rows = segments_by_timestamp db meeting_id in
             if rows = [] then None
             else
               let transcript_text =
                     str_join [CHR 0x0A] (filter (\<lambda>s. s \<noteq> []) (map tr_transcript rows))
               in if transcript_text = [] then None
                  else
                    let proc_row = fetchone (filter (\<lambda>p. sp_meeting_id p = meeting_id)
                                               (summary_processes db))
                    in Some ([(''meeting_id'', SqlText meeting_id),
                              (''transcript_text'', SqlText transcript_text)]
                             @ status_columns proc_row))"

subsection \<open>\<^verbatim>\<open>save_api_key\<close> and \<^verbatim>\<open>get_api_key\<close>\<close>

definition provider_list :: "string list" where
  "provider_list = [''openai'', ''claude'', ''groq'', ''ollama'', ''gemini'']"

definition api_key_name :: "string \<Rightarrow> string" where
  "api_key_name provider =
     (if provider = ''openai'' then ''openaiApiKey''
      else if provider = ''claude'' then ''anthropicApiKey''
      else if provider = ''groq'' then ''groqApiKey''
      else if provider = ''ollama'' then ''ollamaApiKey''
      else ''geminiApiKey'')"

text \<open>Reading and writing the column of \<^verbatim>\<open>settings\<close> that a column name denotes.\<close>

definition get_key_column :: "string \<Rightarrow> settings_row \<Rightarrow> string option" where
  "get_key_column name r =
     (if name = ''openaiApiKey'' then st_openaiApiKey r
      else if name = ''anthropicApiKey'' then st_anthropicApiKey r
      else if name = ''groqApiKey'' then st_groqApiKey r
      else if name = ''ollamaApiKey'' then st_ollamaApiKey r
      else st_geminiApiKey r)"

definition set_key_column :: "string \<Rightarrow> string option \<Rightarrow> settings_row \<Rightarrow> settings_row" where
  "set_key_column name v r =
     (if name = ''openaiApiKey'' then r\<lparr>st_openaiApiKey := v\<rparr>
      else if name = ''anthropicApiKey'' then r\<lparr>st_anthropicApiKey := v\<rparr>
      else if name = ''groqApiKey'' then r\<lparr>st_groqApiKey := v\<rparr>
      else if name = ''ollamaApiKey'' then r\<lparr>st_ollamaApiKey := v\<rparr>
      else r\<lparr>st_geminiApiKey := v\<rparr>)"

definition default_settings_row :: settings_row where
  "default_settings_row =
     \<lparr>st_id = ''1'', st_provider = ''openai'', st_model = ''gpt-4o-2024-11-20'',
      st_whisperModel = ''large-v3'', st_groqApiKey = None, st_openaiApiKey = None,
      st_anthropicApiKey = None, st_ollamaApiKey = None, st_geminiApiKey = None\<rparr>"

text \<open>The key is a string or \<^verbatim>\<open>None\<close>, which is stored as \<^verbatim>\<open>NULL\<close>.\<close>

definition save_api_key :: "string option \<Rightarrow> string \<Rightarrow> database \<Rightarrow> error + database" where
  "save_api_key api_key provider db =
     (if provider \<notin> set provider_list then Inl ValueError
      else
        let name = api_key_name provider;
            existing_config = fetchone (filter (\<lambda>r. st_id r = ''1'') (settings db))
        in case existing_config of
             Some _ \<Rightarrow>
               Inr (db\<lparr>settings := sql_update (\<lambda>r. st_id r = ''1'') (set_key_column name api_key)
                                      (settings db)\<rparr>)
           | None \<Rightarrow>
               (case sql_insert st_id (set_key_column name api_key default_settings_row)
                       (settings db) of
                  Inl e \<Rightarrow> Inl e
                | Inr rows \<Rightarrow> Inr (db\<lparr>settings := rows\<rparr>)))"

definition get_api_key :: "string \<Rightarrow> database \<Rightarrow> error + string" where
  "get_api_key provider db =
     (if provider \<notin> set provider_list then Inl ValueError
      else case fetchone (filter (\<lambda>r. st_id r = ''1'') (settings db)) of
             None \<Rightarrow> Inr []
           | Some r \<Rightarrow> (case get_key_column (api_key_name provider) r of
                          None \<Rightarrow> Inr [] | Some k \<Rightarrow> Inr k))"

subsection \<open>\<^verbatim>\<open>save_jira_config\<close>\<close>

text \<open>
  \<^verbatim>\<open>not api_token or api_token.strip() == '' or api_token == '********'\<close>: the token is
  \<^verbatim>\<open>None\<close>, empty, blank or the mask.
\<close>

definition masked :: "string option \<Rightarrow> bool" where
  "masked api_token =
     (case api_token of
        None \<Rightarrow> True
      | Some t \<Rightarrow> t = [] \<or> str_strip t = [] \<or> t = ''********'')"

definition resolve_token :: "jira_row option \<Rightarrow> string option \<Rightarrow> error + string" where
  "resolve_token existing api_token =
     (case api_token of
        Some t \<Rightarrow>
          if \<not> masked api_token then Inr t
          else (case existing of
                  Some row \<Rightarrow> if js_api_token row \<noteq> [] then Inr (js_api_token row)
                              else Inl ValueError
                | None \<Rightarrow> Inl ValueError)
      | None \<Rightarrow>
          (case existing of
             Some row \<Rightarrow> if js_api_token row \<noteq> [] then Inr (js_api_token row)
                         else Inl ValueError
           | None \<Rightarrow> Inl ValueError))"

definition save_jira_config ::
  "string \<Rightarrow> string \<Rightarrow> string option \<Rightarrow> string option \<Rightarrow> string option \<Rightarrow> database \<Rightarrow>
   error + database" where
  "save_jira_config url email api_token default_project_key default_issue_type db =
     (if url = [] \<or> email = [] then Inl ValueError
      else
        let existing = fetchone (filter (\<lambda>r. js_id r = ''1'') (jira_settings db))
        in case resolve_token existing api_token of
             Inl e \<Rightarrow> Inl e
           | Inr token \<Rightarrow>
               (case existing of
                  Some _ \<Rightarrow>
                    Inr (db\<lparr>jira_settings :=
                              sql_update (\<lambda>r. js_id r = ''1'')
                                (\<lambda>r. r\<lparr>js_url := url, js_email := email, js_api_token := token,
                                       js_default_project_key := default_project_key,
                                       js_default_issue_type := default_issue_type\<rparr>)
                                (jira_settings db)\<rparr>)
                | None \<Rightarrow>
                    (case sql_insert js_id
                            \<lparr>js_id = ''1'', js_url = url, js_email = email, js_api_token = token,
                             js_default_project_key = default_project_key,
                             js_default_issue_type = default_issue_type\<rparr>
                            (jira_settings db) of
                       Inl e \<Rightarrow> Inl e
                     | Inr rows \<Rightarrow> Inr (db\<lparr>jira_settings := rows\<rparr>))))"

section \<open>Auxiliary definitions\<close>

text \<open>The database after a call: a failed call was rolled back.\<close>

definition state_after :: "database \<Rightarrow> error + database \<Rightarrow> database" where
  "state_after db outcome = (case outcome of Inl _ \<Rightarrow> db | Inr db' \<Rightarrow> db')"

text \<open>Which column an assignment writes.\<close>

fun sets_error :: "assignment \<Rightarrow> bool" where
  "sets_error (SetError _) = True"
| "sets_error _ = False"

fun sets_result :: "assignment \<Rightarrow> bool" where
  "sets_result (SetResult _) = True"
| "sets_result _ = False"

fun sets_metadata :: "assignment \<Rightarrow> bool" where
  "sets_metadata (SetMetadata _) = True"
| "sets_metadata _ = False"

fun sets_chunk_count :: "assignment \<Rightarrow> bool" where
  "sets_chunk_count (SetChunkCount _) = True"
| "sets_chunk_count _ = False"

fun sets_processing_time :: "assignment \<Rightarrow> bool" where
  "sets_processing_time (SetProcessingTime _) = True"
| "sets_processing_time _ = False"

fun sets_status :: "assignment \<Rightarrow> bool" where
  "sets_status (SetStatus _) = True"
| "sets_status _ = False"

fun sets_updated_at :: "assignment \<Rightarrow> bool" where
  "sets_updated_at (SetUpdatedAt _) = True"
| "sets_updated_at _ = False"

text \<open>The pieces of the list built by \<open>update_fields\<close>.\<close>

definition error_fields :: "string option \<Rightarrow> assignment list" where
  "error_fields err =
     (case err of
        None \<Rightarrow> []
      | Some e \<Rightarrow> if e = [] then [] else [SetError (sanitize_error e)])"

definition chunk_count_fields :: "int option \<Rightarrow> assignment list" where
  "chunk_count_fields cc = (case cc of None \<Rightarrow> [] | Some n \<Rightarrow> [SetChunkCount n])"

definition processing_time_fields :: "pyfloat option \<Rightarrow> assignment list" where
  "processing_time_fields pt = (case pt of None \<Rightarrow> [] | Some t \<Rightarrow> [SetProcessingTime t])"

definition end_time_fields :: "string \<Rightarrow> string \<Rightarrow> assignment list" where
  "end_time_fields status now =
     (if str_upper status = ''COMPLETED'' \<or> str_upper status = ''FAILED''
      then [SetEndTime now] else [])"

text \<open>
  The sources \<^verbatim>\<open>get_transcript_data\<close> draws on: the chunk row of the meeting when its text
  is not empty, the process row of the meeting, and the non-empty segment texts of the
  meeting in ascending order of timestamp.
\<close>

definition chunk_with_text :: "database \<Rightarrow> string \<Rightarrow> chunk_row option" where
  "chunk_with_text db mid =
     (case fetchone (filter (\<lambda>t. tc_meeting_id t = mid) (transcript_chunks db)) of
        None \<Rightarrow> None
      | Some t \<Rightarrow> if tc_transcript_text t \<noteq> [] then Some t else None)"

definition process_of :: "database \<Rightarrow> string \<Rightarrow> process_row option" where
  "process_of db mid = fetchone (filter (\<lambda>p. sp_meeting_id p = mid) (summary_processes db))"

definition segment_texts :: "database \<Rightarrow> string \<Rightarrow> string list" where
  "segment_texts db mid =
     filter (\<lambda>s. s \<noteq> []) (map tr_transcript (segments_by_timestamp db mid))"

text \<open>The settings row with id \<^verbatim>\<open>'1'\<close>, as \<^verbatim>\<open>fetchone\<close> finds it.\<close>

definition primary_row :: "jira_row list \<Rightarrow> jira_row option" where
  "primary_row rows = fetchone (filter (\<lambda>r. js_id r = ''1'') rows)"

text \<open>What the validator of \<^verbatim>\<open>summary\<close> asks of a text that has no outer whitespace.\<close>

definition good_summary :: "string \<Rightarrow> bool" where
  "good_summary s =
     (s \<noteq> [] \<and> \<not> isspace (hd s) \<and> \<not> isspace (last s) \<and> 10 \<le> length s \<and>
      2 \<le> length (str_split s) \<and>
      length (str_split s) \<le> 2 * length (filter valid_word (str_split s)))"

section \<open>Example data\<close>

definition empty_db :: database where
  "empty_db =
     \<lparr>summary_processes = [], transcript_chunks = [], transcripts = [], settings = [],
      jira_settings = []\<rparr>"

text \<open>
  A stand-in for \<^verbatim>\<open>json.dumps\<close> on flat dictionaries of strings. \<open>Opaque\<close> is a value of
  a type that cannot be serialised, such as a file handle: \<^verbatim>\<open>TypeError\<close>. \<open>Deep\<close> is a
  dictionary nested deeper than the interpreter's recursion limit: \<^verbatim>\<open>RecursionError\<close>.
\<close>

datatype example_value = Str string | Opaque | Deep

definition example_dumps :: "(string \<times> example_value) list \<Rightarrow> error + string" where
  "example_dumps d =
     (if list_ex (\<lambda>(k, v). v = Opaque) d then Inl TypeError
      else if list_ex (\<lambda>(k, v). v = Deep) d then Inl RecursionError
      else Inr (''{'' @ str_join '', ''
                  (map (\<lambda>(k, v). ''\"'' @ k @ ''\": \"''
                                   @ (case v of Str s \<Rightarrow> s | _ \<Rightarrow> []) @ ''\"'') d)
                @ ''}''))"

definition example_process :: process_row where
  "example_process =
     \<lparr>sp_meeting_id = ''m1'', sp_status = ''PENDING'', sp_created_at = ''2025-01-01T10:00:00'',
      sp_updated_at = ''2025-01-01T10:00:00'', sp_error = Some ''earlier failure'',
      sp_result = Some ''{\"MeetingName\": \"Standup\"}'', sp_start_time = Some ''2025-01-01T10:00:00'',
      sp_end_time = None, sp_chunk_count = Some 3, sp_processing_time = Some (Finite 2),
      sp_metadata = Some ''{\"source\": \"upload\"}''\<rparr>"

definition example_db :: database where
  "example_db = empty_db\<lparr>summary_processes := [example_process]\<rparr>"

text \<open>
  Meeting \<open>m1\<close> has a chunk row, a process row and two segments; \<open>m2\<close> has three
  segments, saved out of order, the middle one empty; \<open>m3\<close> has one empty segment.
\<close>

definition example_segment :: "string \<Rightarrow> string \<Rightarrow> string \<Rightarrow> database \<Rightarrow> database" where
  "example_segment meeting_id transcript timestamp db =
     save_meeting_transcript meeting_id transcript timestamp [] [] [] None None None db"

definition example_chunk :: chunk_row where
  "example_chunk =
     \<lparr>tc_meeting_id = ''m1'', tc_meeting_name = None, tc_transcript_text = ''full text'',
      tc_model = ''openai'', tc_model_name = ''gpt-4o'', tc_chunk_size = Some 5000,
      tc_overlap = Some 1000, tc_created_at = ''2025-01-01T09:00:00''\<rparr>"

definition example_meetings :: database where
  "example_meetings =
     example_segment ''m3'' [] ''2025-01-01T10:00:00Z''
       (example_segment ''m2'' ''second'' ''2025-01-01T10:02:00Z''
         (example_segment ''m2'' [] ''2025-01-01T10:01:00Z''
           (example_segment ''m2'' ''first'' ''2025-01-01T10:00:00Z''
             (example_segment ''m1'' ''part two'' ''2025-01-01T10:01:00Z''
               (example_segment ''m1'' ''part one'' ''2025-01-01T10:00:00Z''
                 (example_db\<lparr>transcript_chunks := [example_chunk]\<rparr>))))))"

definition example_jira_row :: jira_row where
  "example_jira_row =
     \<lparr>js_id = ''1'', js_url = ''https://old.atlassian.net'', js_email = ''old@example.com'',
      js_api_token = ''secret-token'', js_default_project_key = Some ''OLD'',
      js_default_issue_type = Some ''Task''\<rparr>"

definition example_settings_row :: settings_row where
  "example_settings_row = default_settings_row\<lparr>st_openaiApiKey := Some ''sk-live''\<rparr>"

definition example_settings :: database where
  "example_settings =
     empty_db\<lparr>settings := [example_settings_row], jira_settings := [example_jira_row]\<rparr>"

definition example_task :: JiraTaskSuggestion where
  "example_task =
     \<lparr>summary = ''bug in login flow'',
      description = ''Users cannot log in after the update'', priority = ''Medium'',
      type = ''Epic'', assignee = ''Unassigned'', assignee_account_id = None, labels = None,
      related_issues = None\<rparr>"

section \<open>Facts about text\<close>

lemmas char_class_defs =
  whitespace_def ascii_uppercase_def ascii_lowercase_def isspace_def isalpha_def
  lower_char_def upper_char_def

lemma dropWhile_id_hd: "xs \<noteq> [] \<Longrightarrow> \<not> P (hd xs) \<Longrightarrow> dropWhile P xs = xs"
  by (cases xs) auto

lemma str_strip_no_outer_space:
  assumes "s \<noteq> []" "\<not> isspace (hd s)" "\<not> isspace (last s)"
  shows "str_strip s = s"
proof -
  have "dropWhile isspace s = s"
    using assms by (simp add: dropWhile_id_hd)
  moreover have "dropWhile isspace (rev s) = rev s"
    using assms by (simp add: dropWhile_id_hd hd_rev)
  ultimately show ?thesis by (simp add: str_strip_def)
qed

lemma str_strip_prefix: "\<exists>t. dropWhile isspace s = str_strip s @ t"
proof -
  let ?a = "dropWhile isspace s"
  have "rev (takeWhile isspace (rev ?a) @ dropWhile isspace (rev ?a)) = ?a"
    by (simp only: takeWhile_dropWhile_id rev_rev_ident)
  then have "rev (dropWhile isspace (rev ?a)) @ rev (takeWhile isspace (rev ?a)) = ?a"
    by (simp only: rev_append)
  then have "?a = str_strip s @ rev (takeWhile isspace (rev ?a))"
    by (simp only: str_strip_def)
  then show ?thesis ..
qed

lemma str_strip_hd: "str_strip s \<noteq> [] \<Longrightarrow> \<not> isspace (hd (str_strip s))"
proof -
  assume ne: "str_strip s \<noteq> []"
  obtain t where t: "dropWhile isspace s = str_strip s @ t"
    using str_strip_prefix by blast
  with ne have "dropWhile isspace s \<noteq> []" by simp
  then have "\<not> isspace (hd (dropWhile isspace s))" by (rule hd_dropWhile)
  with t ne show ?thesis by simp
qed

lemma str_strip_last: "str_strip s \<noteq> [] \<Longrightarrow> \<not> isspace (last (str_strip s))"
proof -
  assume ne: "str_strip s \<noteq> []"
  let ?b = "dropWhile isspace (rev (dropWhile isspace s))"
  from ne have "?b \<noteq> []" by (simp add: str_strip_def)
  then have "\<not> isspace (hd ?b)" by (rule hd_dropWhile)
  with \<open>?b \<noteq> []\<close> show ?thesis by (simp add: str_strip_def last_rev)
qed

lemma str_strip_idem: "str_strip (str_strip s) = str_strip s"
proof (cases "str_strip s = []")
  case True
  have "str_strip [] = []" by (simp add: str_strip_def)
  with True show ?thesis by simp
next
  case False
  then show ?thesis
    by (intro str_strip_no_outer_space str_strip_hd str_strip_last)
qed

lemma str_strip_leading_space: "isspace c \<Longrightarrow> str_strip (c # s) = str_strip s"
  by (simp add: str_strip_def)

lemma str_strip_length: "length (str_strip s) \<le> length s"
proof -
  have "length (str_strip s) \<le> length (dropWhile isspace s)"
    using length_dropWhile_le[of isspace "rev (dropWhile isspace s)"]
    by (simp add: str_strip_def)
  also have "\<dots> \<le> length s" by (rule length_dropWhile_le)
  finally show ?thesis .
qed

lemma strip_code_fence_fenced: "strip_code_fence (''```json'' @ [CHR 0x0A] @ j @ ''```'') = str_strip j"
proof -
  let ?p = "''```json'' @ [CHR 0x0A] @ j @ ''```''"
  have sp: "str_strip ?p = ?p"
    by (rule str_strip_no_outer_space) (simp_all add: char_class_defs)
  have nl: "isspace (CHR 0x0A)" by (simp add: char_class_defs)
  have e: "endswith (CHR 0x0A # j @ ''```'') ''```''"
    by (simp add: endswith_def)
  show ?thesis
    unfolding strip_code_fence_def sp
    using e
    by (simp add: startswith_def str_lstrip_def str_lower_def char_class_defs Let_def str_strip_leading_space[OF nl])
qed

section \<open>Claim C8: stripping a code fence\<close>

text \<open>
  C8, as the code has it. For every text \<open>j\<close>, \<^verbatim>\<open>_strip_code_fence\<close> applied to the three
  backticks and \<^verbatim>\<open>json\<close>, a newline, \<open>j\<close> and three closing backticks yields \<open>j\<close> with its
  surrounding whitespace trimmed, which is exactly \<open>j\<close> when \<open>j\<close> neither begins nor
  ends with whitespace. A payload that, once trimmed, does not start with three
  backticks comes back trimmed and otherwise unchanged.
\<close>

theorem strip_code_fence_unwraps:
  "strip_code_fence (''```json'' @ [CHR 0x0A] @ j @ ''```'') = str_strip j \<and>
   (str_strip j = j \<longrightarrow> strip_code_fence (''```json'' @ [CHR 0x0A] @ j @ ''```'') = j) \<and>
   (\<not> startswith (str_strip payload) ''```'' \<longrightarrow> strip_code_fence payload = str_strip payload)"
proof (intro conjI impI)
  show "strip_code_fence (''```json'' @ [CHR 0x0A] @ j @ ''```'') = str_strip j"
    by (rule strip_code_fence_fenced)
  assume "str_strip j = j"
  then show "strip_code_fence (''```json'' @ [CHR 0x0A] @ j @ ''```'') = j"
    by (simp only: strip_code_fence_fenced)
next
  assume "\<not> startswith (str_strip payload) ''```''"
  then show "strip_code_fence payload = str_strip payload"
    by (simp add: strip_code_fence_def)
qed

theorem strip_code_fence_unwraps_witness:
  "str_strip ''{\"tasks\": []}'' = ''{\"tasks\": []}'' \<and>
   strip_code_fence (''```json'' @ [CHR 0x0A] @ ''{\"tasks\": []}'' @ ''```'') = ''{\"tasks\": []}'' \<and>
   \<not> startswith (str_strip '' {\"tasks\": []} '') ''```'' \<and>
   strip_code_fence '' {\"tasks\": []} '' = ''{\"tasks\": []}''"
proof -
  have a: "str_strip ''{\"tasks\": []}'' = ''{\"tasks\": []}''"
    and b: "str_strip '' {\"tasks\": []} '' = ''{\"tasks\": []}''"
    by (simp_all add: str_strip_def char_class_defs)
  have c: "\<not> startswith (str_strip '' {\"tasks\": []} '') ''```''"
    unfolding b by (simp add: startswith_def)
  from strip_code_fence_unwraps[of "''{\"tasks\": []}''" "'' {\"tasks\": []} ''"] a b c
  show ?thesis by simp
qed

text \<open>
  C8 as stated fails on a JSON text that ends with a newline, the usual layout of a
  fenced block: the newline is trimmed away.
\<close>

theorem strip_code_fence_exact_counterexample:
  "strip_code_fence (''```json'' @ [CHR 0x0A] @ (''{}'' @ [CHR 0x0A]) @ ''```'') = ''{}'' \<and>
   ''{}'' \<noteq> ''{}'' @ [CHR 0x0A]"
  by (simp add: strip_code_fence_def startswith_def endswith_def str_lstrip_def str_lower_def
      str_strip_def char_class_defs)

section \<open>Claim C2: chunking\<close>

lemma range_up_nil: "stop \<le> i \<Longrightarrow> range_up i stop step = []"
  by (simp add: range_up.simps)

lemma range_up_cons: "0 < step \<Longrightarrow> i < stop \<Longrightarrow> range_up i stop step = i # range_up (i + step) stop step"
  by (subst range_up.simps) simp

lemma range_up_eq:
  "0 < step \<Longrightarrow>
   range_up i stop step = map (\<lambda>k. i + int k * step) [0 ..< nat ((stop - i + step - 1) div step)]"
proof (induction i stop step rule: range_up.induct)
  case (1 i stop step)
  show ?case
  proof (cases "i < stop")
    case False
    have "(stop - i + step - 1) div step \<le> (step - 1) div step"
      using 1(2) False by (intro zdiv_mono1) auto
    also have "(step - 1) div step = 0" using 1(2) by simp
    finally have "(stop - i + step - 1) div step \<le> 0" .
    with False show ?thesis by (simp add: range_up_nil)
  next
    case True
    let ?m = "nat ((stop - i + step - 1) div step)"
    let ?m' = "nat ((stop - (i + step) + step - 1) div step)"
    have "stop - i + step - 1 = step + (stop - (i + step) + step - 1)" by simp
    then have "(stop - i + step - 1) div step = (step + (stop - (i + step) + step - 1)) div step"
      by (rule arg_cong)
    also have "\<dots> = (stop - (i + step) + step - 1) div step + 1"
      using 1(2) by (subst div_add_self1) simp_all
    finally have "(stop - i + step - 1) div step = (stop - (i + step) + step - 1) div step + 1" .
    moreover have "0 \<le> (stop - (i + step) + step - 1) div step"
      using 1(2) True by (simp add: pos_imp_zdiv_nonneg_iff)
    ultimately have m: "?m = Suc ?m'" by simp
    have "range_up i stop step = i # range_up (i + step) stop step"
      using 1(2) True by (rule range_up_cons)
    also have "range_up (i + step) stop step = map (\<lambda>k. (i + step) + int k * step) [0 ..< ?m']"
      using 1 True by simp
    also have "i # \<dots> = map (\<lambda>k. i + int k * step) [0 ..< Suc ?m']"
      by (simp add: upt_conv_Cons map_Suc_upt[symmetric] algebra_simps del: upt_Suc)
    finally show ?thesis by (simp only: m)
  qed
qed

lemma chunk_step_clamped:
  "0 < chunk_size \<Longrightarrow> chunk_size \<le> overlap \<Longrightarrow> chunk_step chunk_size overlap = min chunk_size 100"
  by (simp add: chunk_step_def Let_def)

lemma py_slice_window:
  "0 \<le> i \<Longrightarrow> 0 \<le> n \<Longrightarrow> py_slice xs i (i + n) = take (nat n) (drop (nat i) xs)"
  by (auto simp: py_slice_def slice_index_def Let_def min_def take_all_iff nat_add_distrib)

text \<open>
  C2, as the code has it. For every \<^verbatim>\<open>chunk_size\<close> greater than zero and every \<^verbatim>\<open>overlap\<close>
  of at least \<^verbatim>\<open>chunk_size\<close>, and every non-empty text, the chunking step returns (the
  functions above are total), the recomputed stride is positive, there is at least one
  chunk, and the chunks are the windows of \<^verbatim>\<open>chunk_size\<close> characters that start at 0,
  stride, twice the stride and so on, for every start below the length of the text.
\<close>

theorem split_chunks_overlap_ge_chunk_size:
  assumes "0 < chunk_size" and "chunk_size \<le> overlap" and "text \<noteq> []"
  shows "\<exists>chunks. split_chunks text chunk_size overlap = Inr chunks \<and> chunks \<noteq> [] \<and>
           0 < chunk_step chunk_size overlap \<and>
           chunks = map (\<lambda>k. take (nat chunk_size) (drop (k * nat (chunk_step chunk_size overlap)) text))
                      [0 ..< (length text + nat (chunk_step chunk_size overlap) - 1) div nat (chunk_step chunk_size overlap)]"
proof -
  let ?st = "chunk_step chunk_size overlap"
  let ?n = "int (length text)"
  have st: "?st = min chunk_size 100" using assms by (simp add: chunk_step_clamped)
  then have pos: "0 < ?st" using assms by simp
  let ?m = "nat ((?n - 0 + ?st - 1) div ?st)"
  have r: "range_up 0 ?n ?st = map (\<lambda>k. 0 + int k * ?st) [0 ..< ?m]"
    using pos by (rule range_up_eq)
  have m: "?m = (length text + nat ?st - 1) div nat ?st"
  proof -
    have "?n + ?st - 1 = int (length text + nat ?st - 1)" using pos by auto
    then have "(?n - 0 + ?st - 1) div ?st = int ((length text + nat ?st - 1) div nat ?st)"
      using pos by (simp add: zdiv_int)
    then show ?thesis by simp
  qed
  have mpos: "0 < ?m"
  proof -
    have "?st \<le> ?n + ?st - 1" using assms(3) by (cases "text") auto
    then have "?st div ?st \<le> (?n + ?st - 1) div ?st"
      using pos by (intro zdiv_mono1)
    then have "1 \<le> (?n - 0 + ?st - 1) div ?st" using pos by simp
    then show ?thesis by simp
  qed
  have sl: "\<And>k. py_slice text (0 + int k * ?st) (0 + int k * ?st + chunk_size)
               = take (nat chunk_size) (drop (k * nat ?st) text)"
    using pos assms(1) by (simp add: py_slice_window nat_mult_distrib)
  have "split_chunks text chunk_size overlap
        = Inr (map (\<lambda>i. py_slice text i (i + chunk_size)) (range_up 0 ?n ?st))"
    using pos by (simp add: split_chunks_def py_range_def)
  also have "map (\<lambda>i. py_slice text i (i + chunk_size)) (range_up 0 ?n ?st)
        = map (\<lambda>k. take (nat chunk_size) (drop (k * nat ?st) text)) [0 ..< ?m]"
    by (simp only: r map_map comp_def sl)
  finally have "split_chunks text chunk_size overlap
        = Inr (map (\<lambda>k. take (nat chunk_size) (drop (k * nat ?st) text)) [0 ..< ?m])" .
  with mpos pos m show ?thesis by auto
qed

theorem split_chunks_overlap_ge_chunk_size_witness:
  "(0::int) < 3 \<and> (3::int) \<le> 7 \<and> ''abcdefg'' \<noteq> [] \<and>
   split_chunks ''abcdefg'' 3 7 = Inr [''abc'', ''def'', ''g'']"
  using split_chunks_overlap_ge_chunk_size[of 3 7 "''abcdefg''"]
  by (simp add: chunk_step_def upt_conv_Cons)

text \<open>
  C2 as stated fails when \<^verbatim>\<open>chunk_size\<close> is not positive: with \<^verbatim>\<open>chunk_size = 0\<close> the
  recomputed stride is zero and \<^verbatim>\<open>range\<close> raises, and with a negative \<^verbatim>\<open>chunk_size\<close> the
  stride is negative and there is no chunk.
\<close>

theorem split_chunks_nonpositive_counterexample:
  "(0::int) \<le> 0 \<and> ''a'' \<noteq> [] \<and> chunk_step 0 0 = 0 \<and> split_chunks ''a'' 0 0 = Inl ValueError \<and>
   (-5::int) \<le> 0 \<and> split_chunks ''a'' (-5) 0 = Inr []"
  by (simp add: split_chunks_def py_range_def chunk_step_def range_down.simps)

section \<open>Claim C1: \<^verbatim>\<open>create_process\<close> twice\<close>

lemma filter_key_distinct:
  "distinct (map key rows) \<Longrightarrow>
   filter (\<lambda>r. key r = k) rows = [] \<or> (\<exists>r. filter (\<lambda>r. key r = k) rows = [r])"
proof (induction rows)
  case Nil
  then show ?case by simp
next
  case (Cons a rows)
  show ?case
  proof (cases "key a = k")
    case True
    with Cons.prems have "\<forall>r \<in> set rows. key r \<noteq> k" by (auto simp: image_iff)
    then have "filter (\<lambda>r. key r = k) rows = []" by (simp add: filter_empty_conv)
    with True show ?thesis by simp
  next
    case False
    with Cons show ?thesis by simp
  qed
qed

lemma sql_update_keys:
  "(\<And>r. key (f r) = key r) \<Longrightarrow> map key (sql_update p f rows) = map key rows"
  by (simp add: sql_update_def)

lemma filter_sql_update:
  "(\<And>r. key (f r) = key r) \<Longrightarrow>
   filter (\<lambda>r. key r = k) (sql_update (\<lambda>r. key r = k) f rows)
     = map f (filter (\<lambda>r. key r = k) rows)"
  by (induction rows) (simp_all add: sql_update_def)

lemma filter_sql_update_others:
  "(\<And>r. key (f r) = key r) \<Longrightarrow>
   filter (\<lambda>r. key r \<noteq> k) (sql_update (\<lambda>r. key r = k) f rows)
     = filter (\<lambda>r. key r \<noteq> k) rows"
  by (induction rows) (simp_all add: sql_update_def)

lemma sql_update_none: "sql_changes p rows = 0 \<Longrightarrow> sql_update p f rows = rows"
  by (induction rows) (simp_all add: sql_update_def sql_changes_def split: if_splits)

lemma sql_changes_none_keys:
  "sql_changes (\<lambda>r. key r = k) rows = 0 \<Longrightarrow> k \<notin> set (map key rows)"
  by (induction rows) (simp_all add: sql_changes_def split: if_splits)

lemma create_process_once:
  assumes "distinct (map sp_meeting_id (summary_processes db))"
  shows "\<exists>db' r. create_process now mid db = Inr (mid, db') \<and>
           filter (\<lambda>r. sp_meeting_id r = mid) (summary_processes db') = [r] \<and>
           sp_status r = ''PENDING'' \<and> sp_updated_at r = now \<and> sp_start_time r = Some now \<and>
           sp_error r = None \<and> sp_result r = None \<and>
           distinct (map sp_meeting_id (summary_processes db'))"
proof (cases "sql_changes (\<lambda>r. sp_meeting_id r = mid) (summary_processes db) = 0")
  case True
  let ?rows = "summary_processes db"
  from True have notin: "mid \<notin> set (map sp_meeting_id ?rows)"
    by (rule sql_changes_none_keys)
  then have none: "filter (\<lambda>r. sp_meeting_id r = mid) ?rows = []"
    by (auto simp: filter_empty_conv)
  have "create_process now mid db
          = Inr (mid, db\<lparr>summary_processes := ?rows @ [new_process_row mid now]\<rparr>)"
    using True notin
    by (simp add: create_process_def Let_def sql_update_none sql_insert_def new_process_row_def)
  moreover have "distinct (map sp_meeting_id (?rows @ [new_process_row mid now]))"
    using assms notin by (simp add: new_process_row_def)
  ultimately show ?thesis
    using none by (simp add: new_process_row_def)
next
  case False
  let ?rows = "summary_processes db"
  let ?f = "\<lambda>r. r\<lparr>sp_status := ''PENDING'', sp_updated_at := now,
                  sp_start_time := Some now, sp_error := None, sp_result := None\<rparr>"
  let ?rows' = "sql_update (\<lambda>r. sp_meeting_id r = mid) ?f ?rows"
  from False have "filter (\<lambda>r. sp_meeting_id r = mid) ?rows \<noteq> []"
    by (simp add: sql_changes_def)
  with filter_key_distinct[OF assms, of mid]
  obtain r0 where r0: "filter (\<lambda>r. sp_meeting_id r = mid) ?rows = [r0]" by blast
  have "filter (\<lambda>r. sp_meeting_id r = mid) ?rows' = [?f r0]"
    by (subst filter_sql_update) (simp_all add: r0)
  moreover have "map sp_meeting_id ?rows' = map sp_meeting_id ?rows"
    by (rule sql_update_keys) simp
  moreover have "create_process now mid db = Inr (mid, db\<lparr>summary_processes := ?rows'\<rparr>)"
    using False by (simp add: create_process_def Let_def)
  ultimately show ?thesis using assms by simp
qed

text \<open>
  C1. On a table that respects its primary key, two calls of \<^verbatim>\<open>create_process\<close> in
  sequence for the same meeting both succeed and leave exactly one row for that
  meeting; the row has status \<^verbatim>\<open>PENDING\<close>, \<^verbatim>\<open>updated_at\<close> and \<^verbatim>\<open>start_time\<close> of the second
  call, and no error and no result.
\<close>

theorem create_process_twice:
  assumes "distinct (map sp_meeting_id (summary_processes db))"
  shows "\<exists>db1 db2 r.
           create_process now1 mid db = Inr (mid, db1) \<and>
           create_process now2 mid db1 = Inr (mid, db2) \<and>
           filter (\<lambda>r. sp_meeting_id r = mid) (summary_processes db2) = [r] \<and>
           sp_status r = ''PENDING'' \<and> sp_updated_at r = now2 \<and>
           sp_start_time r = Some now2 \<and> sp_error r = None \<and> sp_result r = None"
proof -
  from create_process_once[OF assms, of now1 mid]
  obtain db1 where 1: "create_process now1 mid db = Inr (mid, db1)"
    and d1: "distinct (map sp_meeting_id (summary_processes db1))" by blast
  from create_process_once[OF d1, of now2 mid] 1 show ?thesis by blast
qed

theorem create_process_twice_witness:
  "distinct (map sp_meeting_id (summary_processes empty_db)) \<and>
   (\<exists>db1 db2. create_process ''2025-01-01T10:00:00'' ''m1'' empty_db = Inr (''m1'', db1) \<and>
       create_process ''2025-01-01T11:00:00'' ''m1'' db1 = Inr (''m1'', db2) \<and>
   summary_processes db2 =
     [\<lparr>sp_meeting_id = ''m1'', sp_status = ''PENDING'', sp_created_at = ''2025-01-01T10:00:00'',
      sp_updated_at = ''2025-01-01T11:00:00'', sp_error = None, sp_result = None, sp_start_time = Some ''2025-01-01T11:00:00'',
      sp_end_time = None, sp_chunk_count = Some 0, sp_processing_time = Some (Finite 0),
      sp_metadata = None\<rparr>])"
  using create_process_twice[of empty_db "''2025-01-01T10:00:00''" "''m1''" "''2025-01-01T11:00:00''"]
  by (simp add: empty_db_def create_process_def sql_update_def sql_changes_def sql_insert_def new_process_row_def)

section \<open>Claims C4, C5 and C9: \<^verbatim>\<open>update_process\<close>\<close>

lemma replace_no_old: "old \<notin> set new \<Longrightarrow> old \<notin> set (replace s old new)"
  by (induction s) (auto simp: replace_def)

lemma replace_keeps_out: "c \<notin> set s \<Longrightarrow> c \<notin> set new \<Longrightarrow> c \<notin> set (replace s old new)"
  by (induction s) (auto simp: replace_def)

lemma sanitize_error_clean:
  "CHR 0x0A \<notin> set (sanitize_error e) \<and> CHR 0x0D \<notin> set (sanitize_error e) \<and>
   length (sanitize_error e) \<le> 1000"
proof -
  have a: "CHR 0x0A \<notin> set (replace e (CHR 0x0A) '' '')"
    by (rule replace_no_old) simp
  then have "CHR 0x0A \<notin> set (replace (replace e (CHR 0x0A) '' '') (CHR 0x0D) [])"
    by (rule replace_keeps_out) simp
  moreover have "CHR 0x0D \<notin> set (replace (replace e (CHR 0x0A) '' '') (CHR 0x0D) [])"
    by (rule replace_no_old) simp
  ultimately show ?thesis
    unfolding sanitize_error_def by (auto dest: in_set_takeD)
qed

lemma assign_meeting_id: "sp_meeting_id (fold assign flds r) = sp_meeting_id r"
proof (induction flds arbitrary: r)
  case Nil show ?case by simp
next
  case (Cons a flds) then show ?case by (cases a) simp_all
qed

lemma result_fields_cases:
  assumes "result_fields dumps result fs = Inr fs'"
  shows "\<exists>fr. fs' = fs @ fr \<and>
           (fr = [] \<or> (\<exists>d j. result = Some d \<and> d \<noteq> [] \<and> dumps d = Inr j \<and> fr = [SetResult j])) \<and>
           (truthy result \<or> fr = [])"
  using assms unfolding result_fields_def truthy_def
  by (auto split: option.splits sum.splits if_splits)

lemma metadata_fields_cases:
  assumes "metadata_fields dumps md fs = Inr fs'"
  shows "\<exists>fm. fs' = fs @ fm \<and>
           (fm = [] \<or> (\<exists>d j. md = Some d \<and> d \<noteq> [] \<and> dumps d = Inr j \<and> fm = [SetMetadata j])) \<and>
           (truthy md \<or> fm = [])"
  using assms unfolding metadata_fields_def truthy_def
  by (auto split: option.splits sum.splits if_splits)

lemma update_fields_alt:
  "update_fields dumps now status result err cc pt md =
     (case result_fields dumps result [SetStatus status, SetUpdatedAt now] of
        Inl e \<Rightarrow> Inl e
      | Inr fs \<Rightarrow>
         (case metadata_fields dumps md (fs @ error_fields err @ chunk_count_fields cc @ processing_time_fields pt) of
            Inl e \<Rightarrow> Inl e
          | Inr fs' \<Rightarrow> Inr (fs' @ end_time_fields status now)))"
  unfolding update_fields_def Let_def error_fields_def chunk_count_fields_def
    processing_time_fields_def end_time_fields_def
  by (cases err; cases cc; cases pt) (simp_all split: sum.splits)

lemma update_fields_cases:
  assumes "update_fields dumps now status result err cc pt md = Inr flds"
  shows "\<exists>fr fm. flds = [SetStatus status, SetUpdatedAt now] @ fr @ error_fields err @
                 chunk_count_fields cc @ processing_time_fields pt @ fm @ end_time_fields status now \<and>
     (fr = [] \<or> (\<exists>d j. result = Some d \<and> d \<noteq> [] \<and> dumps d = Inr j \<and> fr = [SetResult j])) \<and>
     (truthy result \<or> fr = []) \<and>
     (fm = [] \<or> (\<exists>d j. md = Some d \<and> d \<noteq> [] \<and> dumps d = Inr j \<and> fm = [SetMetadata j])) \<and>
     (truthy md \<or> fm = [])"
proof -
  from assms obtain fs where fs: "result_fields dumps result [SetStatus status, SetUpdatedAt now] = Inr fs"
    by (auto simp: update_fields_alt split: sum.splits)
  with assms obtain fs' where fs': "metadata_fields dumps md (fs @ error_fields err @ chunk_count_fields cc @ processing_time_fields pt) = Inr fs'"
    and flds: "flds = fs' @ end_time_fields status now"
    by (auto simp: update_fields_alt split: sum.splits)
  from result_fields_cases[OF fs] obtain fr where
    fr: "fs = [SetStatus status, SetUpdatedAt now] @ fr"
        "fr = [] \<or> (\<exists>d j. result = Some d \<and> d \<noteq> [] \<and> dumps d = Inr j \<and> fr = [SetResult j])"
        "truthy result \<or> fr = []" by blast
  from metadata_fields_cases[OF fs'] obtain fm where
    fm: "fs' = (fs @ error_fields err @ chunk_count_fields cc @ processing_time_fields pt) @ fm"
        "fm = [] \<or> (\<exists>d j. md = Some d \<and> d \<noteq> [] \<and> dumps d = Inr j \<and> fm = [SetMetadata j])"
        "truthy md \<or> fm = []" by blast
  have "flds = [SetStatus status, SetUpdatedAt now] @ fr @ error_fields err @
                 chunk_count_fields cc @ processing_time_fields pt @ fm @ end_time_fields status now"
    by (simp add: flds fm(1) fr(1))
  with fr(2,3) fm(2,3) show ?thesis by blast
qed

lemmas field_defs = error_fields_def chunk_count_fields_def processing_time_fields_def end_time_fields_def

lemma keep_status:
  "\<forall>a \<in> set fs. \<not> sets_status a \<Longrightarrow> sp_status (fold assign fs r) = sp_status r"
proof (induction fs arbitrary: r)
  case Nil show ?case by simp
next
  case (Cons a fs) then show ?case by (cases a) simp_all
qed

lemma keep_updated_at:
  "\<forall>a \<in> set fs. \<not> sets_updated_at a \<Longrightarrow> sp_updated_at (fold assign fs r) = sp_updated_at r"
proof (induction fs arbitrary: r)
  case Nil show ?case by simp
next
  case (Cons a fs) then show ?case by (cases a) simp_all
qed

lemma keep_result:
  "\<forall>a \<in> set fs. \<not> sets_result a \<Longrightarrow> sp_result (fold assign fs r) = sp_result r"
proof (induction fs arbitrary: r)
  case Nil show ?case by simp
next
  case (Cons a fs) then show ?case by (cases a) simp_all
qed

lemma keep_error:
  "\<forall>a \<in> set fs. \<not> sets_error a \<Longrightarrow> sp_error (fold assign fs r) = sp_error r"
proof (induction fs arbitrary: r)
  case Nil show ?case by simp
next
  case (Cons a fs) then show ?case by (cases a) simp_all
qed

lemma keep_metadata:
  "\<forall>a \<in> set fs. \<not> sets_metadata a \<Longrightarrow> sp_metadata (fold assign fs r) = sp_metadata r"
proof (induction fs arbitrary: r)
  case Nil show ?case by simp
next
  case (Cons a fs) then show ?case by (cases a) simp_all
qed

lemma keep_chunk_count:
  "\<forall>a \<in> set fs. \<not> sets_chunk_count a \<Longrightarrow>
   sp_chunk_count (fold assign fs r) = sp_chunk_count r"
proof (induction fs arbitrary: r)
  case Nil show ?case by simp
next
  case (Cons a fs) then show ?case by (cases a) simp_all
qed

lemma keep_processing_time:
  "\<forall>a \<in> set fs. \<not> sets_processing_time a \<Longrightarrow>
   sp_processing_time (fold assign fs r) = sp_processing_time r"
proof (induction fs arbitrary: r)
  case Nil show ?case by simp
next
  case (Cons a fs) then show ?case by (cases a) simp_all
qed

lemma error_fields_mem: "a \<in> set (error_fields err) \<Longrightarrow> \<exists>v. a = SetError v"
  by (auto simp: error_fields_def split: option.splits if_splits)

lemma chunk_count_fields_mem: "a \<in> set (chunk_count_fields cc) \<Longrightarrow> \<exists>v. a = SetChunkCount v"
  by (auto simp: chunk_count_fields_def split: option.splits)

lemma processing_time_fields_mem:
  "a \<in> set (processing_time_fields pt) \<Longrightarrow> \<exists>v. a = SetProcessingTime v"
  by (auto simp: processing_time_fields_def split: option.splits)

lemma end_time_fields_mem: "a \<in> set (end_time_fields status now) \<Longrightarrow> a = SetEndTime now"
  by (auto simp: end_time_fields_def split: if_splits)

lemmas fields_mem =
  error_fields_mem chunk_count_fields_mem processing_time_fields_mem end_time_fields_mem

text \<open>The row that a list of assignments of the shape built by \<open>update_fields\<close> leaves.\<close>

lemma shaped_row:
  assumes shape: "flds = [SetStatus status, SetUpdatedAt now] @ fr @ error_fields err @
                 chunk_count_fields cc @ processing_time_fields pt @ fm @ end_time_fields status now"
    and fr: "fr = [] \<or> (\<exists>j. fr = [SetResult j])"
    and fm: "fm = [] \<or> (\<exists>j. fm = [SetMetadata j])"
  shows "sp_status (fold assign flds r) = status"
    and "sp_updated_at (fold assign flds r) = now"
    and "fr = [] \<Longrightarrow> sp_result (fold assign flds r) = sp_result r"
    and "fr = [SetResult j] \<Longrightarrow> sp_result (fold assign flds r) = Some j"
    and "fm = [] \<Longrightarrow> sp_metadata (fold assign flds r) = sp_metadata r"
    and "fm = [SetMetadata j] \<Longrightarrow> sp_metadata (fold assign flds r) = Some j"
    and "sp_error (fold assign flds r) =
           (case err of None \<Rightarrow> sp_error r
            | Some e \<Rightarrow> if e = [] then sp_error r else Some (sanitize_error e))"
    and "sp_chunk_count (fold assign flds r) =
           (case cc of None \<Rightarrow> sp_chunk_count r | Some n \<Rightarrow> Some n)"
    and "sp_processing_time (fold assign flds r) =
           (case pt of None \<Rightarrow> sp_processing_time r | Some t \<Rightarrow> bind_real t)"
proof -
  let ?fe = "error_fields err" and ?fc = "chunk_count_fields cc"
  let ?fp = "processing_time_fields pt" and ?ft = "end_time_fields status now"
  have "\<forall>a \<in> set (SetUpdatedAt now # fr @ ?fe @ ?fc @ ?fp @ fm @ ?ft). \<not> sets_status a"
    using fr fm by (auto dest!: fields_mem)
  then have "sp_status (fold assign (SetUpdatedAt now # fr @ ?fe @ ?fc @ ?fp @ fm @ ?ft)
                (assign (SetStatus status) r)) = sp_status (assign (SetStatus status) r)"
    by (rule keep_status)
  then show "sp_status (fold assign flds r) = status" by (simp add: shape)
  have "\<forall>a \<in> set (fr @ ?fe @ ?fc @ ?fp @ fm @ ?ft). \<not> sets_updated_at a"
    using fr fm by (auto dest!: fields_mem)
  then have "sp_updated_at (fold assign (fr @ ?fe @ ?fc @ ?fp @ fm @ ?ft)
                (assign (SetUpdatedAt now) (assign (SetStatus status) r)))
             = sp_updated_at (assign (SetUpdatedAt now) (assign (SetStatus status) r))"
    by (rule keep_updated_at)
  then show "sp_updated_at (fold assign flds r) = now" by (simp add: shape)
  have rest_r: "\<forall>a \<in> set (?fe @ ?fc @ ?fp @ fm @ ?ft). \<not> sets_result a"
    using fm by (auto dest!: fields_mem)
  show "sp_result (fold assign flds r) = sp_result r" if "fr = []"
    using keep_result[OF rest_r] by (simp add: shape that)
  show "sp_result (fold assign flds r) = Some j" if "fr = [SetResult j]"
    using keep_result[OF rest_r] by (simp add: shape that)
  have pre_m: "\<forall>a \<in> set (fr @ ?fe @ ?fc @ ?fp). \<not> sets_metadata a"
    using fr by (auto dest!: fields_mem)
  have post_m: "\<forall>a \<in> set ?ft. \<not> sets_metadata a"
    by (auto dest!: fields_mem)
  show "sp_metadata (fold assign flds r) = sp_metadata r" if "fm = []"
  proof -
    have "\<forall>a \<in> set ((fr @ ?fe @ ?fc @ ?fp) @ ?ft). \<not> sets_metadata a"
      using pre_m post_m by auto
    from keep_metadata[OF this] show ?thesis by (simp add: shape that)
  qed
  show "sp_metadata (fold assign flds r) = Some j" if "fm = [SetMetadata j]"
    using keep_metadata[OF post_m] by (simp add: shape that)
  have post_e: "\<forall>a \<in> set (?fc @ ?fp @ fm @ ?ft). \<not> sets_error a"
    using fm by (auto dest!: fields_mem)
  have pre_e: "\<forall>a \<in> set fr. \<not> sets_error a" using fr by auto
  show "sp_error (fold assign flds r) =
           (case err of None \<Rightarrow> sp_error r
            | Some e \<Rightarrow> if e = [] then sp_error r else Some (sanitize_error e))"
    using keep_error[OF post_e] keep_error[OF pre_e]
    by (simp add: shape error_fields_def split: option.splits)
  have post_c: "\<forall>a \<in> set (?fp @ fm @ ?ft). \<not> sets_chunk_count a"
    using fm by (auto dest!: fields_mem)
  have pre_c: "\<forall>a \<in> set (fr @ ?fe). \<not> sets_chunk_count a"
    using fr by (auto dest!: fields_mem)
  show "sp_chunk_count (fold assign flds r) =
           (case cc of None \<Rightarrow> sp_chunk_count r | Some n \<Rightarrow> Some n)"
    using keep_chunk_count[OF post_c] keep_chunk_count[OF pre_c]
    by (simp add: shape chunk_count_fields_def split: option.splits)
  have post_p: "\<forall>a \<in> set (fm @ ?ft). \<not> sets_processing_time a"
    using fm by (auto dest!: fields_mem)
  have pre_p: "\<forall>a \<in> set (fr @ ?fe @ ?fc). \<not> sets_processing_time a"
    using fr by (auto dest!: fields_mem)
  show "sp_processing_time (fold assign flds r) =
           (case pt of None \<Rightarrow> sp_processing_time r | Some t \<Rightarrow> bind_real t)"
    using keep_processing_time[OF post_p] keep_processing_time[OF pre_p]
    by (simp add: shape processing_time_fields_def split: option.splits)
qed

lemma update_process_rows:
  assumes "update_process dumps now mid status result err cc pt md db = Inr db'"
  shows "\<exists>flds fr fm.
           db' = db\<lparr>summary_processes :=
                  sql_update (\<lambda>r. sp_meeting_id r = mid) (fold assign flds) (summary_processes db)\<rparr> \<and>
           flds = [SetStatus status, SetUpdatedAt now] @ fr @ error_fields err @
                 chunk_count_fields cc @ processing_time_fields pt @ fm @ end_time_fields status now \<and>
           (fr = [] \<or> (\<exists>j. fr = [SetResult j])) \<and> (truthy result \<or> fr = []) \<and>
           (fm = [] \<or> (\<exists>j. fm = [SetMetadata j])) \<and> (truthy md \<or> fm = [])"
proof -
  from assms obtain flds where
    flds: "update_fields dumps now status result err cc pt md = Inr flds"
    and db': "db' = db\<lparr>summary_processes :=
                sql_update (\<lambda>r. sp_meeting_id r = mid) (fold assign flds) (summary_processes db)\<rparr>"
    by (auto simp: update_process_def split: sum.splits if_splits)
  from update_fields_cases[OF flds] db' show ?thesis by blast
qed

text \<open>
  C9. A successful \<^verbatim>\<open>update_process\<close> leaves every row of another meeting as it was, and
  in every row of the meeting it writes \<^verbatim>\<open>status\<close> and \<^verbatim>\<open>updated_at\<close>; a \<^verbatim>\<open>result\<close>,
  \<^verbatim>\<open>error\<close> or \<^verbatim>\<open>metadata\<close> that is absent or empty leaves its column unchanged;
  \<^verbatim>\<open>chunk_count\<close> and \<^verbatim>\<open>processing_time\<close> are written whenever they are not \<^verbatim>\<open>None\<close>, zero
  included, and left unchanged only when they are \<^verbatim>\<open>None\<close>. What is written for a
  \<^verbatim>\<open>processing_time\<close> is the number, and \<^verbatim>\<open>NULL\<close> for a NaN.
\<close>

theorem update_process_frame:
  assumes "update_process dumps now mid status result err cc pt md db = Inr db'"
  shows "list_all2
           (\<lambda>r r'. if sp_meeting_id r = mid
                   then sp_status r' = status \<and> sp_updated_at r' = now \<and>
                        (\<not> truthy result \<longrightarrow> sp_result r' = sp_result r) \<and>
                        (\<not> truthy err \<longrightarrow> sp_error r' = sp_error r) \<and>
                        (\<not> truthy md \<longrightarrow> sp_metadata r' = sp_metadata r) \<and>
                        sp_chunk_count r' = (case cc of None \<Rightarrow> sp_chunk_count r | Some n \<Rightarrow> Some n) \<and>
                        sp_processing_time r' =
                          (case pt of None \<Rightarrow> sp_processing_time r
                           | Some t \<Rightarrow> if t = NaN then None else Some t)
                   else r' = r)
           (summary_processes db) (summary_processes db')"
proof -
  from update_process_rows[OF assms] obtain flds fr fm where
    db': "db' = db\<lparr>summary_processes :=
                sql_update (\<lambda>r. sp_meeting_id r = mid) (fold assign flds) (summary_processes db)\<rparr>"
    and shape: "flds = [SetStatus status, SetUpdatedAt now] @ fr @ error_fields err @
                 chunk_count_fields cc @ processing_time_fields pt @ fm @ end_time_fields status now"
    and fr: "fr = [] \<or> (\<exists>j. fr = [SetResult j])" "truthy result \<or> fr = []"
    and fm: "fm = [] \<or> (\<exists>j. fm = [SetMetadata j])" "truthy md \<or> fm = []"
    by blast
  note row = shaped_row[OF shape fr(1) fm(1)]
  have "\<not> truthy err \<Longrightarrow> sp_error (fold assign flds r) = sp_error r" for r
    by (simp add: row(7) truthy_def split: option.splits)
  moreover have "\<not> truthy result \<Longrightarrow> sp_result (fold assign flds r) = sp_result r" for r
    using fr(2) row(3) by blast
  moreover have "\<not> truthy md \<Longrightarrow> sp_metadata (fold assign flds r) = sp_metadata r" for r
    using fm(2) row(5) by blast
  ultimately show ?thesis
    unfolding db' sql_update_def
    by (simp add: list_all2_map2 list_all2_same row(1,2,8,9) bind_real_def cong: option.case_cong)
qed

text \<open>
  C4. When \<^verbatim>\<open>update_process\<close> succeeds with a non-empty \<^verbatim>\<open>error\<close>, the error column of every
  row of the meeting holds the sanitised text, which has no line feed, no carriage
  return and at most 1000 characters.
\<close>

theorem update_process_error_sanitized:
  assumes "err \<noteq> []"
    and "update_process dumps now mid status result (Some err) cc pt md db = Inr db'"
  shows "map sp_error (filter (\<lambda>r. sp_meeting_id r = mid) (summary_processes db'))
           = map (\<lambda>r. Some (sanitize_error err))
               (filter (\<lambda>r. sp_meeting_id r = mid) (summary_processes db)) \<and>
         CHR 0x0A \<notin> set (sanitize_error err) \<and> CHR 0x0D \<notin> set (sanitize_error err) \<and>
         length (sanitize_error err) \<le> 1000"
proof -
  from update_process_rows[OF assms(2)] obtain flds fr fm where
    db': "db' = db\<lparr>summary_processes :=
                sql_update (\<lambda>r. sp_meeting_id r = mid) (fold assign flds) (summary_processes db)\<rparr>"
    and shape: "flds = [SetStatus status, SetUpdatedAt now] @ fr @ error_fields (Some err) @
                 chunk_count_fields cc @ processing_time_fields pt @ fm @ end_time_fields status now"
    and fr: "fr = [] \<or> (\<exists>j. fr = [SetResult j])"
    and fm: "fm = [] \<or> (\<exists>j. fm = [SetMetadata j])"
    by blast
  have e: "sp_error (fold assign flds r) = Some (sanitize_error err)" for r
    using shaped_row(7)[OF shape fr fm, of r] assms(1) by simp
  have "filter (\<lambda>r. sp_meeting_id r = mid) (summary_processes db')
          = map (fold assign flds) (filter (\<lambda>r. sp_meeting_id r = mid) (summary_processes db))"
    unfolding db' by (simp add: filter_sql_update assign_meeting_id)
  then show ?thesis
    using sanitize_error_clean[of err] by (simp add: e)
qed


lemmas example_defs = empty_db_def example_db_def example_process_def example_dumps_def
lemmas update_defs = update_process_def update_fields_def result_fields_def metadata_fields_def
  sql_update_def sql_changes_def sql_insert_def in_int64_def bind_real_def

theorem update_process_frame_witness:
  "\<exists>db'. update_process example_dumps ''2025-01-01T11:00:00'' ''m1'' ''PROCESSING''
            (Some []) (Some []) (Some 0) (Some (Finite 0)) (Some []) example_db = Inr db' \<and>
         map sp_status (summary_processes db') = [''PROCESSING''] \<and>
         map sp_updated_at (summary_processes db') = [''2025-01-01T11:00:00''] \<and>
         map sp_result (summary_processes db') = [Some ''{\"MeetingName\": \"Standup\"}''] \<and>
         map sp_error (summary_processes db') = [Some ''earlier failure''] \<and>
         map sp_metadata (summary_processes db') = [Some ''{\"source\": \"upload\"}''] \<and>
         map sp_chunk_count (summary_processes db') = [Some 0] \<and>
         map sp_processing_time (summary_processes db') = [Some (Finite 0)]"
proof -
  let ?db' = "example_db\<lparr>summary_processes :=
      [example_process\<lparr>sp_status := ''PROCESSING'', sp_updated_at := ''2025-01-01T11:00:00'',
                       sp_chunk_count := Some 0, sp_processing_time := Some (Finite 0)\<rparr>]\<rparr>"
  have run: "update_process example_dumps ''2025-01-01T11:00:00'' ''m1'' ''PROCESSING''
            (Some []) (Some []) (Some 0) (Some (Finite 0)) (Some []) example_db = Inr ?db'"
    by (simp add: update_defs example_defs str_upper_def char_class_defs)
  from update_process_frame[OF run] show ?thesis
    unfolding run by (simp add: example_defs truthy_def bind_real_def)
qed

theorem update_process_error_sanitized_witness:
  "\<exists>db'. update_process example_dumps ''2025-01-01T11:00:00'' ''m1'' ''FAILED'' None
            (Some (''line1'' @ [CHR 0x0A] @ ''line2'' @ replicate 2000 (CHR ''x''))) None None None
            example_db = Inr db' \<and>
         map sp_error (summary_processes db')
           = [Some (sanitize_error (''line1'' @ [CHR 0x0A] @ ''line2'' @ replicate 2000 (CHR ''x'')))] \<and>
         CHR 0x0A \<notin> set (sanitize_error (''line1'' @ [CHR 0x0A] @ ''line2'' @ replicate 2000 (CHR ''x''))) \<and>
         CHR 0x0D \<notin> set (sanitize_error (''line1'' @ [CHR 0x0A] @ ''line2'' @ replicate 2000 (CHR ''x''))) \<and>
         length (sanitize_error (''line1'' @ [CHR 0x0A] @ ''line2'' @ replicate 2000 (CHR ''x''))) \<le> 1000"
proof -
  let ?err = "''line1'' @ [CHR 0x0A] @ ''line2'' @ replicate 2000 (CHR ''x'')"
  let ?db' = "example_db\<lparr>summary_processes :=
      [example_process\<lparr>sp_status := ''FAILED'', sp_updated_at := ''2025-01-01T11:00:00'',
                       sp_error := Some (sanitize_error ?err),
                       sp_end_time := Some ''2025-01-01T11:00:00''\<rparr>]\<rparr>"
  have ne: "?err \<noteq> []" by simp
  have run: "update_process example_dumps ''2025-01-01T11:00:00'' ''m1'' ''FAILED'' None
            (Some ?err) None None None example_db = Inr ?db'"
    by (simp add: update_defs example_defs str_upper_def char_class_defs)
  from update_process_error_sanitized[OF ne run] show ?thesis
    unfolding run by (simp add: example_defs)
qed



section \<open>Claim C10: \<^verbatim>\<open>save_transcript\<close>\<close>

text \<open>
  C10, as the code has it. \<^verbatim>\<open>save_transcript\<close> raises \<^verbatim>\<open>ValueError\<close> and leaves the database
  as it was whenever \<^verbatim>\<open>meeting_id\<close> or \<^verbatim>\<open>transcript_text\<close> is empty or blank, \<^verbatim>\<open>chunk_size\<close> is
  not positive, \<^verbatim>\<open>overlap\<close> is negative or the text has more than 10,000,000 characters.
  On every other input with \<^verbatim>\<open>chunk_size\<close> and \<^verbatim>\<open>overlap\<close> below 2^63, and a table that
  respects its primary key, it succeeds and leaves exactly one row for the meeting,
  which holds the arguments; the rows of other meetings are as they were and the
  primary key is still respected. On every other input with \<^verbatim>\<open>chunk_size\<close> or \<^verbatim>\<open>overlap\<close>
  of 2^63 or more it raises \<^verbatim>\<open>OverflowError\<close> and leaves the database as it was.
\<close>

theorem save_transcript_validates_and_upserts:
  "(blank mid \<or> blank transcript_text \<or> chunk_size \<le> 0 \<or> overlap < 0 \<or> length transcript_text > 10000000 \<longrightarrow>
      save_transcript now mid transcript_text model model_name chunk_size overlap db = Inl ValueError \<and>
      state_after db (save_transcript now mid transcript_text model model_name chunk_size overlap db) = db) \<and>
   (\<not> (blank mid \<or> blank transcript_text \<or> chunk_size \<le> 0 \<or> overlap < 0 \<or> length transcript_text > 10000000) \<and>
    chunk_size < 2 ^ 63 \<and> overlap < 2 ^ 63 \<and>
    distinct (map tc_meeting_id (transcript_chunks db)) \<longrightarrow>
      (\<exists>db' r. save_transcript now mid transcript_text model model_name chunk_size overlap db = Inr db' \<and>
         filter (\<lambda>r. tc_meeting_id r = mid) (transcript_chunks db') = [r] \<and>
         tc_transcript_text r = transcript_text \<and> tc_model r = model \<and> tc_model_name r = model_name \<and>
         tc_chunk_size r = Some chunk_size \<and> tc_overlap r = Some overlap \<and>
         tc_created_at r = now \<and>
         filter (\<lambda>r. tc_meeting_id r \<noteq> mid) (transcript_chunks db')
           = filter (\<lambda>r. tc_meeting_id r \<noteq> mid) (transcript_chunks db) \<and>
         distinct (map tc_meeting_id (transcript_chunks db')))) \<and>
   (\<not> (blank mid \<or> blank transcript_text \<or> chunk_size \<le> 0 \<or> overlap < 0 \<or> length transcript_text > 10000000) \<and>
    (2 ^ 63 \<le> chunk_size \<or> 2 ^ 63 \<le> overlap) \<longrightarrow>
      save_transcript now mid transcript_text model model_name chunk_size overlap db = Inl OverflowError \<and>
      state_after db (save_transcript now mid transcript_text model model_name chunk_size overlap db) = db)"
proof (intro conjI impI)
  assume "\<not> (blank mid \<or> blank transcript_text \<or> chunk_size \<le> 0 \<or> overlap < 0 \<or> length transcript_text > 10000000) \<and>
    (2 ^ 63 \<le> chunk_size \<or> 2 ^ 63 \<le> overlap)"
  then show 2: "save_transcript now mid transcript_text model model_name chunk_size overlap db = Inl OverflowError"
    by (auto simp: save_transcript_def in_int64_def)
  then show "state_after db (save_transcript now mid transcript_text model model_name chunk_size overlap db) = db"
    by (simp add: state_after_def)
next
  assume "blank mid \<or> blank transcript_text \<or> chunk_size \<le> 0 \<or> overlap < 0 \<or> length transcript_text > 10000000"
  then show 1: "save_transcript now mid transcript_text model model_name chunk_size overlap db = Inl ValueError"
    by (auto simp: save_transcript_def)
  then show "state_after db (save_transcript now mid transcript_text model model_name chunk_size overlap db) = db"
    by (simp add: state_after_def)
next
  assume a: "\<not> (blank mid \<or> blank transcript_text \<or> chunk_size \<le> 0 \<or> overlap < 0 \<or> length transcript_text > 10000000) \<and>
    chunk_size < 2 ^ 63 \<and> overlap < 2 ^ 63 \<and>
    distinct (map tc_meeting_id (transcript_chunks db))"
  then have range: "in_int64 chunk_size" "in_int64 overlap" by (simp_all add: in_int64_def)
  let ?rows = "transcript_chunks db"
  let ?p = "\<lambda>r. tc_meeting_id r = mid"
  let ?f = "\<lambda>r. r\<lparr>tc_transcript_text := transcript_text, tc_model := model,
                  tc_model_name := model_name, tc_chunk_size := Some chunk_size,
                  tc_overlap := Some overlap, tc_created_at := now\<rparr>"
  let ?new = "\<lparr>tc_meeting_id = mid, tc_meeting_name = None,
                tc_transcript_text = transcript_text, tc_model = model,
                tc_model_name = model_name, tc_chunk_size = Some chunk_size,
                tc_overlap = Some overlap, tc_created_at = now\<rparr>"
  from a have d: "distinct (map tc_meeting_id ?rows)" by simp
  show "\<exists>db' r. save_transcript now mid transcript_text model model_name chunk_size overlap db = Inr db' \<and>
         filter (\<lambda>r. tc_meeting_id r = mid) (transcript_chunks db') = [r] \<and>
         tc_transcript_text r = transcript_text \<and> tc_model r = model \<and> tc_model_name r = model_name \<and>
         tc_chunk_size r = Some chunk_size \<and> tc_overlap r = Some overlap \<and>
         tc_created_at r = now \<and>
         filter (\<lambda>r. tc_meeting_id r \<noteq> mid) (transcript_chunks db')
           = filter (\<lambda>r. tc_meeting_id r \<noteq> mid) (transcript_chunks db) \<and>
         distinct (map tc_meeting_id (transcript_chunks db'))"
  proof (cases "sql_changes ?p ?rows = 0")
    case True
    then have notin: "mid \<notin> set (map tc_meeting_id ?rows)"
      by (rule sql_changes_none_keys)
    then have none: "filter ?p ?rows = []" by (auto simp: filter_empty_conv)
    have "save_transcript now mid transcript_text model model_name chunk_size overlap db
            = Inr (db\<lparr>transcript_chunks := ?rows @ [?new]\<rparr>)"
      using a True notin range
      by (simp add: save_transcript_def Let_def sql_update_none sql_insert_def)
    moreover have "distinct (map tc_meeting_id (?rows @ [?new]))"
      using d notin by simp
    ultimately show ?thesis using none by simp
  next
    case False
    let ?rows' = "sql_update ?p ?f ?rows"
    from False have "filter ?p ?rows \<noteq> []" by (simp add: sql_changes_def)
    with filter_key_distinct[OF d, of mid]
    obtain r0 where r0: "filter ?p ?rows = [r0]" by blast
    have "filter ?p ?rows' = [?f r0]"
      by (subst filter_sql_update) (simp_all add: r0)
    moreover have "filter (\<lambda>r. tc_meeting_id r \<noteq> mid) ?rows'
                     = filter (\<lambda>r. tc_meeting_id r \<noteq> mid) ?rows"
      by (rule filter_sql_update_others) simp
    moreover have "map tc_meeting_id ?rows' = map tc_meeting_id ?rows"
      by (rule sql_update_keys) simp
    moreover have "save_transcript now mid transcript_text model model_name chunk_size overlap db
                     = Inr (db\<lparr>transcript_chunks := ?rows'\<rparr>)"
      using a False range by (simp add: save_transcript_def Let_def)
    ultimately show ?thesis using d by simp
  qed
qed

lemma blank_space: "blank ''   ''"
  by (simp add: blank_def str_strip_def char_class_defs)

theorem save_transcript_validates_and_upserts_witness:
  "save_transcript ''2025-01-01T10:00:00'' ''   '' ''hello'' ''openai'' ''gpt-4o'' 5000 1000 empty_db
     = Inl ValueError \<and>
   save_transcript ''2025-01-01T10:00:00'' ''m1'' (replicate 10000001 (CHR ''a'')) ''openai''
       ''gpt-4o'' 5000 1000 empty_db = Inl ValueError \<and>
   (\<exists>db1 db2.
      save_transcript ''2025-01-01T10:00:00'' ''m1'' ''hello'' ''openai'' ''gpt-4o'' 5000 1000 empty_db
        = Inr db1 \<and>
      save_transcript ''2025-01-01T11:00:00'' ''m1'' ''hello again'' ''claude'' ''sonnet'' 300 0 db1
        = Inr db2 \<and>
      transcript_chunks db2 =
        [\<lparr>tc_meeting_id = ''m1'', tc_meeting_name = None, tc_transcript_text = ''hello again'',
          tc_model = ''claude'', tc_model_name = ''sonnet'', tc_chunk_size = Some 300,
          tc_overlap = Some 0, tc_created_at = ''2025-01-01T11:00:00''\<rparr>]) \<and>
   save_transcript ''2025-01-01T10:00:00'' ''m1'' ''hello'' ''openai'' ''gpt-4o''
       9223372036854775808 1000 empty_db = Inl OverflowError"
proof -
  let ?db1 = "empty_db\<lparr>transcript_chunks :=
        [\<lparr>tc_meeting_id = ''m1'', tc_meeting_name = None, tc_transcript_text = ''hello'',
          tc_model = ''openai'', tc_model_name = ''gpt-4o'', tc_chunk_size = Some 5000,
          tc_overlap = Some 1000, tc_created_at = ''2025-01-01T10:00:00''\<rparr>]\<rparr>"
  have nb: "\<not> blank ''m1''" "\<not> blank ''hello''" "\<not> blank ''hello again''"
    by (simp_all add: blank_def str_strip_def char_class_defs)
  have d1: "distinct (map tc_meeting_id (transcript_chunks ?db1))" by simp
  have s1: "save_transcript ''2025-01-01T10:00:00'' ''m1'' ''hello'' ''openai'' ''gpt-4o'' 5000 1000 empty_db
        = Inr ?db1"
    using nb
    by (simp add: save_transcript_def sql_update_def sql_changes_def sql_insert_def empty_db_def
        in_int64_def)
  have s2: "save_transcript ''2025-01-01T11:00:00'' ''m1'' ''hello again'' ''claude'' ''sonnet'' 300 0 ?db1
        = Inr (empty_db\<lparr>transcript_chunks :=
        [\<lparr>tc_meeting_id = ''m1'', tc_meeting_name = None, tc_transcript_text = ''hello again'',
          tc_model = ''claude'', tc_model_name = ''sonnet'', tc_chunk_size = Some 300,
          tc_overlap = Some 0, tc_created_at = ''2025-01-01T11:00:00''\<rparr>]\<rparr>)"
    using save_transcript_validates_and_upserts[where mid = "''m1''" and transcript_text = "''hello again''"
        and chunk_size = 300 and overlap = 0 and db = "?db1" and now = "''2025-01-01T11:00:00''"
        and model = "''claude''" and model_name = "''sonnet''"] nb d1
    by (simp add: save_transcript_def sql_update_def sql_changes_def sql_insert_def empty_db_def
        in_int64_def)
  show ?thesis
    using save_transcript_validates_and_upserts[where mid = "''   ''" and transcript_text = "''hello''"
        and chunk_size = 5000 and overlap = 1000 and db = empty_db and now = "''2025-01-01T10:00:00''"
        and model = "''openai''" and model_name = "''gpt-4o''"]
      save_transcript_validates_and_upserts[where mid = "''m1''"
        and transcript_text = "replicate 10000001 (CHR ''a'')"
        and chunk_size = 5000 and overlap = 1000 and db = empty_db and now = "''2025-01-01T10:00:00''"
        and model = "''openai''" and model_name = "''gpt-4o''"]
      save_transcript_validates_and_upserts[where mid = "''m1''" and transcript_text = "''hello''"
        and chunk_size = 9223372036854775808 and overlap = 1000 and db = empty_db
        and now = "''2025-01-01T10:00:00''" and model = "''openai''" and model_name = "''gpt-4o''"]
      blank_space nb s1 s2
    by simp
qed

text \<open>
  C10 as stated fails on a \<^verbatim>\<open>chunk_size\<close> of 2^63: every stated precondition holds, yet
  binding it to the \<^verbatim>\<open>UPDATE\<close> raises \<^verbatim>\<open>OverflowError\<close> and no row is written.
\<close>

theorem save_transcript_overflow_counterexample:
  "\<not> blank ''m1'' \<and> \<not> blank ''hello'' \<and> (0::int) < 9223372036854775808 \<and> (0::int) \<le> 1000 \<and>
   length ''hello'' \<le> 10000000 \<and>
   save_transcript ''2025-01-01T10:00:00'' ''m1'' ''hello'' ''openai'' ''gpt-4o''
       9223372036854775808 1000 empty_db = Inl OverflowError"
  by (simp add: save_transcript_def blank_def str_strip_def char_class_defs in_int64_def)

section \<open>Claim C3: \<^verbatim>\<open>get_transcript_data\<close>\<close>

lemma fetchone_left_join:
  "fetchone (left_join_processes db mid)
     = (case fetchone (filter (\<lambda>t. tc_meeting_id t = mid) (transcript_chunks db)) of
          None \<Rightarrow> None
        | Some t \<Rightarrow> Some (t, fetchone (filter (\<lambda>p. sp_meeting_id p = mid) (summary_processes db))))"
proof (cases "filter (\<lambda>t. tc_meeting_id t = mid) (transcript_chunks db)")
  case Nil
  then show ?thesis by (simp add: left_join_processes_def fetchone_def)
next
  case (Cons t ts)
  then have "t \<in> set (filter (\<lambda>t. tc_meeting_id t = mid) (transcript_chunks db))" by simp
  then have t: "tc_meeting_id t = mid" by simp
  show ?thesis
    using Cons t
    by (cases "filter (\<lambda>p. sp_meeting_id p = mid) (summary_processes db)")
       (simp_all add: left_join_processes_def fetchone_def)
qed

lemma str_join_nonempty:
  "xs \<noteq> [] \<Longrightarrow> \<forall>x \<in> set xs. x \<noteq> [] \<Longrightarrow> str_join sep xs \<noteq> []"
  by (induction sep xs rule: str_join.induct) simp_all

lemma sorted_segments_empty:
  "segments_by_timestamp db mid = [] \<longleftrightarrow> filter (\<lambda>r. tr_meeting_id r = mid) (transcripts db) = []"
proof -
  have "length (segments_by_timestamp db mid) = length (filter (\<lambda>r. tr_meeting_id r = mid) (transcripts db))"
    by (simp add: segments_by_timestamp_def)
  then show ?thesis by (metis length_0_conv)
qed

lemma get_transcript_data_alt:
  "get_transcript_data db mid =
     (case chunk_with_text db mid of
        Some t \<Rightarrow> Some (joined_row t (process_of db mid))
      | None \<Rightarrow>
          if segment_texts db mid = [] then None
          else Some ([(''meeting_id'', SqlText mid),
                      (''transcript_text'', SqlText (str_join [CHR 0x0A] (segment_texts db mid)))]
                     @ status_columns (process_of db mid)))"
proof -
  have j: "segment_texts db mid \<noteq> [] \<Longrightarrow> str_join [CHR 0x0A] (segment_texts db mid) \<noteq> []"
    by (rule str_join_nonempty) (simp_all add: segment_texts_def)
  have e: "segments_by_timestamp db mid = [] \<Longrightarrow> segment_texts db mid = []"
    by (simp add: segment_texts_def)
  have t: "sql_truthy (map_of (joined_row t p) ''transcript_text'') = (tc_transcript_text t \<noteq> [])" for t p
    by (simp add: joined_row_def sql_truthy_def)
  show ?thesis
  proof (cases "fetchone (filter (\<lambda>t. tc_meeting_id t = mid) (transcript_chunks db))")
    case None
    then show ?thesis
      using j e
      by (auto simp: get_transcript_data_def fetchone_left_join chunk_with_text_def Let_def
          process_of_def segment_texts_def[symmetric])
  next
    case (Some t)
    then show ?thesis
      using j e
      by (auto simp: get_transcript_data_def fetchone_left_join chunk_with_text_def Let_def t
          process_of_def segment_texts_def[symmetric])
  qed
qed

lemma segments_sorted:
  "sorted (map tr_timestamp (segments_by_timestamp db mid)) \<and>
   set (segments_by_timestamp db mid) = {r \<in> set (transcripts db). tr_meeting_id r = mid}"
  by (auto simp: segments_by_timestamp_def)

text \<open>
  C3, as the code has it. When the first chunk row of the meeting has non-empty text,
  \<^verbatim>\<open>get_transcript_data\<close> returns the eight columns of that row followed by the status,
  result and error of the first process row of the meeting, or by three \<^verbatim>\<open>NULL\<close>s when the
  meeting has no process row, whatever segments exist. Otherwise, when some segment of
  the meeting has non-empty text, it returns the meeting id, the non-empty segment
  texts in ascending order of timestamp (equal timestamps in insertion order) joined
  by newlines, and the same three columns. It returns \<^verbatim>\<open>None\<close> exactly when there is
  neither a chunk row with non-empty text nor a segment with non-empty text.
\<close>

theorem get_transcript_data_sources:
  fixes db :: database and mid :: string
  defines "chunks \<equiv> filter (\<lambda>t. tc_meeting_id t = mid) (transcript_chunks db)"
    and "procs \<equiv> filter (\<lambda>p. sp_meeting_id p = mid) (summary_processes db)"
    and "texts \<equiv> filter (\<lambda>s. s \<noteq> [])
                   (map tr_transcript
                      (sort_key tr_timestamp
                         (filter (\<lambda>r. tr_meeting_id r = mid) (transcripts db))))"
  defines "merged \<equiv>
             (case procs of
                [] \<Rightarrow> [(''status'', SqlNull), (''result'', SqlNull), (''error'', SqlNull)]
              | p # _ \<Rightarrow>
                  [(''status'', SqlText (sp_status p)),
                   (''result'', case sp_result p of None \<Rightarrow> SqlNull | Some s \<Rightarrow> SqlText s),
                   (''error'', case sp_error p of None \<Rightarrow> SqlNull | Some s \<Rightarrow> SqlText s)])"
  shows "(\<forall>t ts. chunks = t # ts \<and> tc_transcript_text t \<noteq> [] \<longrightarrow>
            get_transcript_data db mid =
              Some ([(''meeting_id'', SqlText (tc_meeting_id t)),
                     (''meeting_name'',
                        case tc_meeting_name t of None \<Rightarrow> SqlNull | Some s \<Rightarrow> SqlText s),
                     (''transcript_text'', SqlText (tc_transcript_text t)),
                     (''model'', SqlText (tc_model t)),
                     (''model_name'', SqlText (tc_model_name t)),
                     (''chunk_size'',
                        case tc_chunk_size t of None \<Rightarrow> SqlNull | Some i \<Rightarrow> SqlInt i),
                     (''overlap'', case tc_overlap t of None \<Rightarrow> SqlNull | Some i \<Rightarrow> SqlInt i),
                     (''created_at'', SqlText (tc_created_at t))] @ merged)) \<and>
         ((\<forall>t ts. chunks = t # ts \<longrightarrow> tc_transcript_text t = []) \<and> texts \<noteq> [] \<longrightarrow>
            get_transcript_data db mid =
              Some ([(''meeting_id'', SqlText mid),
                     (''transcript_text'', SqlText (str_join [CHR 0x0A] texts))] @ merged)) \<and>
         (get_transcript_data db mid = None \<longleftrightarrow>
            (\<forall>t ts. chunks = t # ts \<longrightarrow> tc_transcript_text t = []) \<and> texts = [])"
proof -
  have m: "status_columns (process_of db mid) = merged"
    by (cases procs)
       (simp_all add: merged_def status_columns_def process_of_def fetchone_def procs_def
          opt_text_def)
  have t: "segment_texts db mid = texts"
    by (simp add: segment_texts_def segments_by_timestamp_def texts_def)
  show ?thesis
  proof (cases chunks)
    case Nil
    then have "chunk_with_text db mid = None"
      by (simp add: chunk_with_text_def fetchone_def chunks_def)
    with Nil show ?thesis by (simp add: get_transcript_data_alt m t)
  next
    case (Cons c cs)
    show ?thesis
    proof (cases "tc_transcript_text c = []")
      case True
      with Cons have "chunk_with_text db mid = None"
        by (simp add: chunk_with_text_def fetchone_def chunks_def)
      with Cons True show ?thesis by (simp add: get_transcript_data_alt m t)
    next
      case False
      with Cons have "chunk_with_text db mid = Some c"
        by (simp add: chunk_with_text_def fetchone_def chunks_def)
      with Cons False show ?thesis
        by (simp add: get_transcript_data_alt m joined_row_def opt_text_def opt_int_def)
    qed
  qed
qed

lemmas example_meetings_defs =
  example_meetings_def example_segment_def save_meeting_transcript_def example_chunk_def
  example_db_def example_process_def empty_db_def

lemma example_sources:
  "chunk_with_text example_meetings ''m1'' = Some example_chunk"
  "process_of example_meetings ''m1'' = Some example_process"
  "chunk_with_text example_meetings ''m2'' = None"
  "process_of example_meetings ''m2'' = None"
  "segment_texts example_meetings ''m2'' = [''first'', ''second'']"
  "map tr_transcript (segments_by_timestamp example_meetings ''m2'') = [''first'', [], ''second'']"
  "chunk_with_text example_meetings ''m3'' = None"
  "segment_texts example_meetings ''m3'' = []"
  "map tr_transcript (filter (\<lambda>r. tr_meeting_id r = ''m3'') (transcripts example_meetings)) = [[]]"
  by (simp_all add: chunk_with_text_def process_of_def segment_texts_def segments_by_timestamp_def
      fetchone_def example_meetings_defs)

theorem get_transcript_data_sources_witness:
  "get_transcript_data example_meetings ''m1'' =
     Some [(''meeting_id'', SqlText ''m1''), (''meeting_name'', SqlNull),
           (''transcript_text'', SqlText ''full text''), (''model'', SqlText ''openai''),
           (''model_name'', SqlText ''gpt-4o''), (''chunk_size'', SqlInt 5000),
           (''overlap'', SqlInt 1000), (''created_at'', SqlText ''2025-01-01T09:00:00''),
           (''status'', SqlText ''PENDING''),
           (''result'', SqlText ''{\"MeetingName\": \"Standup\"}''),
           (''error'', SqlText ''earlier failure'')] \<and>
   get_transcript_data example_meetings ''m2'' =
     Some [(''meeting_id'', SqlText ''m2''),
           (''transcript_text'', SqlText (''first'' @ [CHR 0x0A] @ ''second'')),
           (''status'', SqlNull), (''result'', SqlNull), (''error'', SqlNull)] \<and>
   get_transcript_data example_meetings ''m3'' = None"
proof -
  have m1: "filter (\<lambda>t. tc_meeting_id t = ''m1'') (transcript_chunks example_meetings)
              = [example_chunk]"
    "filter (\<lambda>p. sp_meeting_id p = ''m1'') (summary_processes example_meetings)
              = [example_process]"
    by (simp_all add: example_meetings_defs)
  have m2: "filter (\<lambda>t. tc_meeting_id t = ''m2'') (transcript_chunks example_meetings) = []"
    "filter (\<lambda>p. sp_meeting_id p = ''m2'') (summary_processes example_meetings) = []"
    "filter (\<lambda>s. s \<noteq> [])
       (map tr_transcript
          (sort_key tr_timestamp
             (filter (\<lambda>r. tr_meeting_id r = ''m2'') (transcripts example_meetings))))
       = [''first'', ''second'']"
    by (simp_all add: example_meetings_defs)
  have m3: "filter (\<lambda>t. tc_meeting_id t = ''m3'') (transcript_chunks example_meetings) = []"
    "filter (\<lambda>s. s \<noteq> [])
       (map tr_transcript
          (sort_key tr_timestamp
             (filter (\<lambda>r. tr_meeting_id r = ''m3'') (transcripts example_meetings))))
       = []"
    by (simp_all add: example_meetings_defs)
  from get_transcript_data_sources[where db = example_meetings and mid = "''m1''"]
  have 1: "get_transcript_data example_meetings ''m1'' =
     Some [(''meeting_id'', SqlText ''m1''), (''meeting_name'', SqlNull),
           (''transcript_text'', SqlText ''full text''), (''model'', SqlText ''openai''),
           (''model_name'', SqlText ''gpt-4o''), (''chunk_size'', SqlInt 5000),
           (''overlap'', SqlInt 1000), (''created_at'', SqlText ''2025-01-01T09:00:00''),
           (''status'', SqlText ''PENDING''),
           (''result'', SqlText ''{\"MeetingName\": \"Standup\"}''),
           (''error'', SqlText ''earlier failure'')]"
    unfolding m1 by (simp add: example_chunk_def example_process_def)
  from get_transcript_data_sources[where db = example_meetings and mid = "''m2''"]
  have 2: "get_transcript_data example_meetings ''m2'' =
     Some [(''meeting_id'', SqlText ''m2''),
           (''transcript_text'', SqlText (''first'' @ [CHR 0x0A] @ ''second'')),
           (''status'', SqlNull), (''result'', SqlNull), (''error'', SqlNull)]"
    unfolding m2 by simp
  from get_transcript_data_sources[where db = example_meetings and mid = "''m3''"]
  have 3: "get_transcript_data example_meetings ''m3'' = None"
    unfolding m3 by simp
  from 1 2 3 show ?thesis by simp
qed

text \<open>
  C3 as stated fails on segments with empty text: they are left out of the join, so
  the text returned for \<open>m2\<close> is not the newline-join of its segment texts, and \<open>m3\<close>,
  which has a segment, gets \<^verbatim>\<open>None\<close>.
\<close>

theorem get_transcript_data_empty_segment_counterexample:
  "get_transcript_data example_meetings ''m2'' =
     Some [(''meeting_id'', SqlText ''m2''),
           (''transcript_text'', SqlText (''first'' @ [CHR 0x0A] @ ''second'')),
           (''status'', SqlNull), (''result'', SqlNull), (''error'', SqlNull)] \<and>
   str_join [CHR 0x0A] (map tr_transcript (segments_by_timestamp example_meetings ''m2''))
     = ''first'' @ [CHR 0x0A, CHR 0x0A] @ ''second'' \<and>
   ''first'' @ [CHR 0x0A] @ ''second'' \<noteq> ''first'' @ [CHR 0x0A, CHR 0x0A] @ ''second'' \<and>
   get_transcript_data example_meetings ''m3'' = None \<and>
   map tr_transcript (filter (\<lambda>r. tr_meeting_id r = ''m3'') (transcripts example_meetings)) = [[]]"
  by (simp add: get_transcript_data_alt example_sources status_columns_def)

section \<open>Claim C7: saving a masked credential\<close>

lemma sql_update_same_column:
  "(\<And>r. r \<in> set rows \<Longrightarrow> p r \<Longrightarrow> col (f r) = col r) \<Longrightarrow>
   map col (sql_update p f rows) = map col rows"
  by (induction rows) (simp_all add: sql_update_def)

lemma fetchone_key_unique:
  assumes "distinct (map key rows)" and "fetchone (filter (\<lambda>r. key r = k) rows) = Some row"
    and "r \<in> set rows" and "key r = k"
  shows "r = row"
proof -
  from filter_key_distinct[OF assms(1), of k] assms(2)
  have "filter (\<lambda>r. key r = k) rows = [row]"
    by (auto simp: fetchone_def)
  moreover from assms(3,4) have "r \<in> set (filter (\<lambda>r. key r = k) rows)" by simp
  ultimately show ?thesis by simp
qed

lemma fetchone_filter_Some:
  "fetchone (filter p rows) = Some r \<Longrightarrow> p r \<and> r \<in> set rows"
  by (cases "filter p rows") (auto simp: fetchone_def dest: filter_eq_ConsD)

text \<open>
  C7, as the code has it. In \<^verbatim>\<open>save_jira_config\<close>, a token that is \<^verbatim>\<open>None\<close>, empty, blank
  or the mask \<^verbatim>\<open>********\<close> never changes a stored token: when the settings row exists
  with a non-empty token and the URL and the e-mail are given, the call succeeds and
  the token column is as it was; when there is no settings row, or its token is empty,
  the call raises \<^verbatim>\<open>ValueError\<close> and leaves the database as it was.
\<close>

theorem save_jira_config_masked_token:
  "(masked api_token \<and> url \<noteq> [] \<and> email \<noteq> [] \<and>
    primary_row (jira_settings db) = Some row \<and> js_api_token row \<noteq> [] \<and>
    distinct (map js_id (jira_settings db)) \<longrightarrow>
      (\<exists>db'. save_jira_config url email api_token project_key issue_type db = Inr db' \<and>
             map js_api_token (jira_settings db') = map js_api_token (jira_settings db) \<and>
             primary_row (jira_settings db') =
               Some (row\<lparr>js_url := url, js_email := email,
                         js_default_project_key := project_key,
                         js_default_issue_type := issue_type\<rparr>))) \<and>
   (masked api_token \<and>
    (primary_row (jira_settings db) = None \<or>
     (\<exists>row. primary_row (jira_settings db) = Some row \<and> js_api_token row = [])) \<longrightarrow>
      save_jira_config url email api_token project_key issue_type db = Inl ValueError \<and>
      state_after db (save_jira_config url email api_token project_key issue_type db) = db)"
proof (intro conjI impI)
  assume a: "masked api_token \<and> url \<noteq> [] \<and> email \<noteq> [] \<and>
    primary_row (jira_settings db) = Some row \<and> js_api_token row \<noteq> [] \<and>
    distinct (map js_id (jira_settings db))"
  let ?f = "\<lambda>r. r\<lparr>js_url := url, js_email := email, js_api_token := js_api_token row,
                  js_default_project_key := project_key,
                  js_default_issue_type := issue_type\<rparr>"
  let ?rows' = "sql_update (\<lambda>r. js_id r = ''1'') ?f (jira_settings db)"
  from a have ex: "fetchone (filter (\<lambda>r. js_id r = ''1'') (jira_settings db)) = Some row"
    by (simp add: primary_row_def)
  from a have tok: "resolve_token (Some row) api_token = Inr (js_api_token row)"
    by (auto simp: resolve_token_def split: option.splits)
  have run: "save_jira_config url email api_token project_key issue_type db
               = Inr (db\<lparr>jira_settings := ?rows'\<rparr>)"
    using a by (simp add: save_jira_config_def ex tok)
  have same: "map js_api_token ?rows' = map js_api_token (jira_settings db)"
  proof (rule sql_update_same_column)
    fix r assume "r \<in> set (jira_settings db)" "js_id r = ''1''"
    with a ex have "r = row" by (intro fetchone_key_unique[where key = js_id and k = "''1''"]) auto
    then show "js_api_token (?f r) = js_api_token r" by simp
  qed
  have "filter (\<lambda>r. js_id r = ''1'') ?rows' = map ?f (filter (\<lambda>r. js_id r = ''1'') (jira_settings db))"
    by (rule filter_sql_update) simp
  then have "primary_row ?rows' = Some (?f row)"
    using ex by (cases "filter (\<lambda>r. js_id r = ''1'') (jira_settings db)")
      (simp_all add: primary_row_def fetchone_def)
  moreover have "?f row = row\<lparr>js_url := url, js_email := email,
                         js_default_project_key := project_key,
                         js_default_issue_type := issue_type\<rparr>" by simp
  ultimately show "\<exists>db'. save_jira_config url email api_token project_key issue_type db = Inr db' \<and>
             map js_api_token (jira_settings db') = map js_api_token (jira_settings db) \<and>
             primary_row (jira_settings db') =
               Some (row\<lparr>js_url := url, js_email := email,
                         js_default_project_key := project_key,
                         js_default_issue_type := issue_type\<rparr>)"
    using run same by simp
next
  assume a: "masked api_token \<and>
    (primary_row (jira_settings db) = None \<or>
     (\<exists>row. primary_row (jira_settings db) = Some row \<and> js_api_token row = []))"
  then have "resolve_token (fetchone (filter (\<lambda>r. js_id r = ''1'') (jira_settings db))) api_token
               = Inl ValueError"
    by (auto simp: resolve_token_def primary_row_def split: option.splits)
  then show 1: "save_jira_config url email api_token project_key issue_type db = Inl ValueError"
    by (simp add: save_jira_config_def)
  then show "state_after db (save_jira_config url email api_token project_key issue_type db) = db"
    by (simp add: state_after_def)
qed

lemmas example_settings_defs =
  example_settings_def example_settings_row_def example_jira_row_def default_settings_row_def
  empty_db_def

theorem save_jira_config_masked_token_witness:
  "masked (Some ''********'') \<and> masked (Some []) \<and> masked None \<and>
   save_jira_config ''https://new.atlassian.net'' ''new@example.com'' (Some ''********'')
       (Some ''NEW'') None example_settings
     = Inr (example_settings\<lparr>jira_settings :=
          [example_jira_row\<lparr>js_url := ''https://new.atlassian.net'', js_email := ''new@example.com'',
                            js_default_project_key := Some ''NEW'',
                            js_default_issue_type := None\<rparr>]\<rparr>) \<and>
   save_jira_config ''https://new.atlassian.net'' ''new@example.com'' None (Some ''NEW'') None empty_db
     = Inl ValueError"
proof -
  have m: "masked (Some ''********'')" "masked (Some [])" "masked None"
    by (simp_all add: masked_def)
  have p: "primary_row (jira_settings example_settings) = Some example_jira_row"
    "js_api_token example_jira_row \<noteq> []"
    "distinct (map js_id (jira_settings example_settings))"
    "primary_row (jira_settings empty_db) = None"
    by (simp_all add: primary_row_def fetchone_def example_settings_defs)
  from save_jira_config_masked_token[where api_token = "Some ''********''"
        and url = "''https://new.atlassian.net''" and email = "''new@example.com''"
        and db = example_settings and row = example_jira_row
        and project_key = "Some ''NEW''" and issue_type = None] m p
  obtain db' where
    run: "save_jira_config ''https://new.atlassian.net'' ''new@example.com'' (Some ''********'')
            (Some ''NEW'') None example_settings = Inr db'"
    by auto
  have "save_jira_config ''https://new.atlassian.net'' ''new@example.com'' (Some ''********'')
            (Some ''NEW'') None example_settings
     = Inr (example_settings\<lparr>jira_settings :=
          [example_jira_row\<lparr>js_url := ''https://new.atlassian.net'', js_email := ''new@example.com'',
                            js_default_project_key := Some ''NEW'',
                            js_default_issue_type := None\<rparr>]\<rparr>)"
    using run
    by (simp add: save_jira_config_def resolve_token_def masked_def fetchone_def sql_update_def
        example_settings_defs)
  moreover have "save_jira_config ''https://new.atlassian.net'' ''new@example.com'' None
       (Some ''NEW'') None empty_db = Inl ValueError"
    using save_jira_config_masked_token[where api_token = None
        and url = "''https://new.atlassian.net''" and email = "''new@example.com''"
        and db = empty_db and project_key = "Some ''NEW''" and issue_type = None] m p
    by simp
  ultimately show ?thesis using m by simp
qed

text \<open>
  C7 as stated fails for \<^verbatim>\<open>save_api_key\<close>, which has no mask: it stores the value it is
  given over an existing key, and with no settings row it inserts one instead of
  raising.
\<close>

theorem save_api_key_mask_counterexample:
  "get_api_key ''openai'' example_settings = Inr ''sk-live'' \<and>
   save_api_key (Some ''********'') ''openai'' example_settings
     = Inr (example_settings\<lparr>settings :=
              [default_settings_row\<lparr>st_openaiApiKey := Some ''********''\<rparr>]\<rparr>) \<and>
   save_api_key None ''openai'' example_settings
     = Inr (example_settings\<lparr>settings := [default_settings_row]\<rparr>) \<and>
   save_api_key (Some ''********'') ''openai'' empty_db
     = Inr (empty_db\<lparr>settings := [default_settings_row\<lparr>st_openaiApiKey := Some ''********''\<rparr>]\<rparr>)"
  by (simp add: save_api_key_def get_api_key_def provider_list_def api_key_name_def
      get_key_column_def set_key_column_def fetchone_def sql_update_def sql_insert_def
      example_settings_defs)

section \<open>Claim C6: post-processing of task suggestions\<close>

lemma isalpha_upper_char: "isalpha (upper_char c) = isalpha c"
  unfolding char_class_defs by (auto split: if_splits)

lemma isspace_upper_char: "isspace (upper_char c) = isspace c"
  unfolding char_class_defs by (auto split: if_splits)

lemma lower_upper_char: "lower_char (upper_char c) = lower_char c"
  unfolding char_class_defs by (auto split: if_splits)

lemma str_split_Cons_nonspace:
  "\<not> isspace c \<Longrightarrow>
   str_split (c # cs) = (c # takeWhile (\<lambda>x. \<not> isspace x) cs)
                          # str_split (dropWhile (\<lambda>x. \<not> isspace x) cs)"
  by simp

lemma str_split_capitalize:
  assumes "s \<noteq> []" "\<not> isspace (hd s)"
  shows "\<exists>w ws. str_split s = w # ws \<and> w \<noteq> [] \<and>
                str_split (capitalize s) = capitalize w # ws"
proof -
  from assms obtain c cs where s: "s = c # cs" and c: "\<not> isspace c" by (cases s) auto
  from c have "\<not> isspace (upper_char c)" by (simp add: isspace_upper_char)
  then have "str_split (capitalize s)
       = (upper_char c # takeWhile (\<lambda>x. \<not> isspace x) cs)
           # str_split (dropWhile (\<lambda>x. \<not> isspace x) cs)"
    by (simp add: s capitalize_def)
  moreover have "str_split s = (c # takeWhile (\<lambda>x. \<not> isspace x) cs)
           # str_split (dropWhile (\<lambda>x. \<not> isspace x) cs)"
    using c by (simp add: s)
  ultimately show ?thesis by (simp add: capitalize_def)
qed

lemma valid_word_capitalize: "valid_word (capitalize w) = valid_word w"
  by (cases w) (simp_all add: valid_word_def capitalize_def isalpha_upper_char)

lemma str_lower_capitalize: "str_lower (capitalize w) = str_lower w"
  by (cases w) (simp_all add: str_lower_def capitalize_def lower_upper_char)

lemma str_split_verb:
  "str_split (''Fix '' @ s) = ''Fix'' # str_split s"
  "str_split (''Resolve '' @ s) = ''Resolve'' # str_split s"
  "str_split (''Address '' @ s) = ''Address'' # str_split s"
  by (simp_all add: char_class_defs)

lemma with_verb_cases:
  "with_verb ty s = s \<and> first_word s \<in> set action_verbs \<or>
   with_verb ty s = ''Fix '' @ s \<or> with_verb ty s = ''Resolve '' @ s \<or>
   with_verb ty s = ''Address '' @ s"
  by (simp add: with_verb_def)

lemma validated_fields:
  assumes "validated t"
  shows "validate_summary (summary t) = Inr (summary t)"
    and "validate_description (description t) = Inr (description t)"
    and "validate_priority (priority t) = priority t"
    and "validate_type (type t) = type t"
proof -
  from assms obtain s' d' where s': "validate_summary (summary t) = Inr s'"
    and d': "validate_description (description t) = Inr d'"
    and t: "\<lparr>summary = s', description = d', priority = validate_priority (priority t),
             type = validate_type (type t), assignee = assignee t,
             assignee_account_id = assignee_account_id t, labels = labels t,
             related_issues = related_issues t\<rparr> = t"
    by (auto simp: validated_def JiraTaskSuggestion_init_def split: sum.splits)
  from t have "summary t = s'" "description t = d'"
    "priority t = validate_priority (priority t)" "type t = validate_type (type t)"
    by (metis JiraTaskSuggestion.select_convs)+
  with s' d' show "validate_summary (summary t) = Inr (summary t)"
    and "validate_description (description t) = Inr (description t)"
    and "validate_priority (priority t) = priority t"
    and "validate_type (type t) = type t"
    by simp_all
qed

lemma validate_summary_good:
  assumes "validate_summary s = Inr s"
  shows "good_summary s" and "str_strip s = s"
proof -
  from assms have ne: "s \<noteq> []" and len: "10 \<le> length (str_strip s)"
    and st: "str_strip s = s"
    and w: "2 \<le> length (str_split s)"
    and v: "length (str_split s) \<le> 2 * length (filter valid_word (str_split s))"
    by (auto simp: validate_summary_def Let_def split: if_splits)
  from ne st have "str_strip s \<noteq> []" by simp
  then have "\<not> isspace (hd (str_strip s))" "\<not> isspace (last (str_strip s))"
    by (rule str_strip_hd, rule str_strip_last)
  with ne len st w v show "good_summary s" by (simp add: good_summary_def)
  show "str_strip s = s" by (rule st)
qed

lemma good_summary_validates:
  assumes "good_summary s"
  shows "validate_summary s = Inr s"
proof -
  from assms have "str_strip s = s"
    by (intro str_strip_no_outer_space) (simp_all add: good_summary_def)
  with assms show ?thesis
    by (auto simp: validate_summary_def good_summary_def Let_def)
qed

lemma valid_word_verbs:
  "valid_word ''Fix''" "valid_word ''Resolve''" "valid_word ''Address''"
  by (simp_all add: valid_word_def char_class_defs)

lemma good_summary_verb:
  assumes "good_summary s"
  shows "good_summary (''Fix '' @ s)" and "good_summary (''Resolve '' @ s)"
    and "good_summary (''Address '' @ s)"
  using assms
  by (simp_all add: good_summary_def str_split_verb valid_word_verbs char_class_defs)

lemma good_summary_with_verb:
  assumes "good_summary s"
  shows "good_summary (with_verb ty s)"
proof -
  from with_verb_cases[of ty s]
  consider "with_verb ty s = s" | "with_verb ty s = ''Fix '' @ s"
    | "with_verb ty s = ''Resolve '' @ s" | "with_verb ty s = ''Address '' @ s"
    by blast
  then show ?thesis
  proof cases
    case 1 with assms show ?thesis by (simp only:)
  next
    case 2 with good_summary_verb(1)[OF assms] show ?thesis by (simp only:)
  next
    case 3 with good_summary_verb(2)[OF assms] show ?thesis by (simp only:)
  next
    case 4 with good_summary_verb(3)[OF assms] show ?thesis by (simp only:)
  qed
qed

lemma good_summary_capitalize:
  assumes "good_summary s"
  shows "good_summary (capitalize s)"
proof -
  let ?x = "capitalize s"
  from assms have l: "10 \<le> length s" and ne: "s \<noteq> []"
    and h: "\<not> isspace (hd s)" and la: "\<not> isspace (last s)"
    and w2: "2 \<le> length (str_split s)"
    and v: "length (str_split s) \<le> 2 * length (filter valid_word (str_split s))"
    by (simp_all add: good_summary_def)
  from l obtain c cs where s: "s = c # cs" by (cases s) auto
  with l have cs: "cs \<noteq> []" by auto
  have x: "?x = upper_char c # cs" by (simp add: s capitalize_def)
  from str_split_capitalize[OF ne h] obtain w ws where
    w: "str_split s = w # ws" "str_split ?x = capitalize w # ws" by blast
  have 1: "?x \<noteq> []" by (simp add: x)
  have 2: "\<not> isspace (hd ?x)" unfolding x using h by (simp add: s isspace_upper_char)
  have 3: "\<not> isspace (last ?x)" unfolding x using la cs by (simp add: s)
  have 4: "10 \<le> length ?x" unfolding x using l by (simp add: s)
  have 5: "2 \<le> length (str_split ?x)" using w2 by (simp only: w list.size length_Cons)
  have "length (filter valid_word (str_split ?x)) = length (filter valid_word (str_split s))"
    by (simp only: w filter.simps valid_word_capitalize) simp
  moreover have "length (str_split ?x) = length (str_split s)"
    by (simp only: w length_Cons)
  ultimately have 6: "length (str_split ?x) \<le> 2 * length (filter valid_word (str_split ?x))"
    using v by (simp only:)
  from 1 2 3 4 5 6 show ?thesis unfolding good_summary_def by blast
qed

lemma first_word_capitalize:
  "s \<noteq> [] \<Longrightarrow> \<not> isspace (hd s) \<Longrightarrow> first_word (capitalize s) = first_word s"
  using str_split_capitalize[of s]
  by (auto simp: first_word_def str_lower_capitalize)

lemma first_word_verbs:
  "first_word (''Fix '' @ s) = ''fix''" "first_word (''Resolve '' @ s) = ''resolve''"
  "first_word (''Address '' @ s) = ''address''"
  by (simp_all add: first_word_def str_split_verb str_lower_def char_class_defs)

lemma verbs_are_action_verbs:
  "''fix'' \<in> set action_verbs" "''resolve'' \<in> set action_verbs"
  "''address'' \<in> set action_verbs"
  by (simp_all add: action_verbs_def)

lemma first_word_with_verb: "first_word (with_verb ty s) \<in> set action_verbs"
proof -
  from with_verb_cases[of ty s]
  consider "with_verb ty s = s \<and> first_word s \<in> set action_verbs"
    | "with_verb ty s = ''Fix '' @ s"
    | "with_verb ty s = ''Resolve '' @ s" | "with_verb ty s = ''Address '' @ s"
    by blast
  then show ?thesis
  proof cases
    case 1 then show ?thesis by (simp only:)
  next
    case 2 then show ?thesis by (simp only: first_word_verbs verbs_are_action_verbs)
  next
    case 3 then show ?thesis by (simp only: first_word_verbs verbs_are_action_verbs)
  next
    case 4 then show ?thesis by (simp only: first_word_verbs verbs_are_action_verbs)
  qed
qed

lemma validate_type_fixed: "validate_type ''Bug'' = ''Bug''" "validate_type ''Task'' = ''Task''"
  by (simp_all add: validate_type_def type_map_def str_strip_def str_lower_def char_class_defs)

lemma validate_type_not_epic:
  assumes "validate_type ty = ty"
  shows "validate_type (fix_type ty s) \<noteq> ''Epic''"
proof (cases "str_lower ty = ''epic''")
  case True
  then have "fix_type ty s = ''Bug'' \<or> fix_type ty s = ''Task''"
    by (simp add: fix_type_def)
  then show ?thesis by (auto simp: validate_type_fixed)
next
  case False
  have "str_lower ''Epic'' = ''epic''" by (simp add: str_lower_def char_class_defs)
  with False have "ty \<noteq> ''Epic''" by auto
  with False assms show ?thesis by (simp add: fix_type_def)
qed

text \<open>On a validated task the constructor of the cleaned task never raises.\<close>

lemma post_process_task_validated:
  assumes "validated t"
  shows "post_process_task t =
     (if is_valid_english (summary t)
      then [\<lparr>summary = capitalize (with_verb (type t) (summary t)),
             description = description t,
             priority = validate_priority (fix_priority (priority t) (description t)),
             type = validate_type (fix_type (type t) (capitalize (with_verb (type t) (summary t)))),
             assignee = assignee t, assignee_account_id = assignee_account_id t,
             labels = labels t, related_issues = related_issues t\<rparr>]
      else [])"
proof -
  note f = validated_fields[OF assms]
  from validate_summary_good[OF f(1)] have g: "good_summary (summary t)"
    and st: "str_strip (summary t) = summary t" .
  from g have "good_summary (capitalize (with_verb (type t) (summary t)))"
    by (intro good_summary_capitalize good_summary_with_verb)
  then have "validate_summary (capitalize (with_verb (type t) (summary t)))
               = Inr (capitalize (with_verb (type t) (summary t)))"
    by (rule good_summary_validates)
  then show ?thesis
    by (simp add: post_process_task_def st f(2) JiraTaskSuggestion_init_def Let_def)
qed

lemma action_verb_initial: "w \<in> set action_verbs \<Longrightarrow> w \<noteq> [] \<and> hd w \<in> set ascii_lowercase"
  by (auto simp: action_verbs_def ascii_lowercase_def)

lemma upper_of_letter: "lower_char c \<in> set ascii_lowercase \<Longrightarrow> upper_char c \<in> set ascii_uppercase"
  unfolding char_class_defs by (auto split: if_splits)

lemma capital_verb:
  assumes "good_summary s" and "first_word (capitalize s) \<in> set action_verbs"
  shows "capitalize s \<noteq> [] \<and> hd (capitalize s) \<in> set ascii_uppercase"
proof -
  from assms(1) obtain c cs where s: "s = c # cs" and c: "\<not> isspace c"
    by (cases s) (auto simp: good_summary_def)
  have x: "capitalize s = upper_char c # cs" by (simp add: s capitalize_def)
  from c have "\<not> isspace (upper_char c)" by (simp add: isspace_upper_char)
  then have "first_word (upper_char c # cs)
      = lower_char c # str_lower (takeWhile (\<lambda>x. \<not> isspace x) cs)"
    by (simp add: first_word_def str_lower_def lower_upper_char)
  with assms(2) have "lower_char c \<in> set ascii_lowercase"
    unfolding x using action_verb_initial by fastforce
  then show ?thesis unfolding x by (simp add: upper_of_letter)
qed

lemma post_process_task_output:
  assumes "validated t" and "u \<in> set (post_process_task t)"
  shows "type u \<noteq> ''Epic'' \<and> first_word (summary u) \<in> set action_verbs \<and>
         summary u \<noteq> [] \<and> hd (summary u) \<in> set ascii_uppercase"
proof -
  let ?y = "with_verb (type t) (summary t)"
  note f = validated_fields[OF assms(1)]
  from validate_summary_good[OF f(1)] have g: "good_summary (summary t)" by simp
  then have gy: "good_summary ?y" by (rule good_summary_with_verb)
  then have "?y \<noteq> []" "\<not> isspace (hd ?y)" by (simp_all add: good_summary_def)
  then have "first_word (capitalize ?y) = first_word ?y" by (rule first_word_capitalize)
  then have fw: "first_word (capitalize ?y) \<in> set action_verbs"
    by (simp add: first_word_with_verb)
  from assms have u: "summary u = capitalize ?y"
    "type u = validate_type (fix_type (type t) (capitalize ?y))"
    by (auto simp: post_process_task_validated split: if_splits)
  from u(2) f(4) have "type u \<noteq> ''Epic''" by (simp add: validate_type_not_epic)
  with fw capital_verb[OF gy fw] show ?thesis by (simp add: u(1))
qed

lemma str_split_spaces: "\<forall>x \<in> set ws. isspace x \<Longrightarrow> str_split ws = []"
  by (induction ws) simp_all

lemma str_split_lstrip: "str_split (dropWhile isspace v) = str_split v"
  by (induction v) simp_all

lemma str_split_trailing:
  "\<forall>x \<in> set ws. isspace x \<Longrightarrow> str_split (v @ ws) = str_split v"
proof (induction v rule: str_split.induct)
  case 1
  then show ?case by (simp add: str_split_spaces)
next
  case (2 c cs)
  show ?case
  proof (cases "isspace c")
    case True
    with 2 show ?thesis by simp
  next
    case False
    show ?thesis
    proof (cases "\<exists>x \<in> set cs. isspace x")
      case True
      then have "takeWhile (\<lambda>x. \<not> isspace x) (cs @ ws) = takeWhile (\<lambda>x. \<not> isspace x) cs"
        and "dropWhile (\<lambda>x. \<not> isspace x) (cs @ ws) = dropWhile (\<lambda>x. \<not> isspace x) cs @ ws"
        by (auto simp: takeWhile_append1 dropWhile_append1)
      with False 2 show ?thesis by simp
    next
      case no: False
      then have tw: "takeWhile (\<lambda>x. \<not> isspace x) cs = cs"
        and dw: "dropWhile (\<lambda>x. \<not> isspace x) cs = []" by auto
      have "takeWhile (\<lambda>x. \<not> isspace x) ws = []" using 2(3) by (cases ws) auto
      with no have tw': "takeWhile (\<lambda>x. \<not> isspace x) (cs @ ws) = cs"
        by (simp add: takeWhile_append2)
      have "dropWhile (\<lambda>x. \<not> isspace x) ws = ws" using 2(3) by (cases ws) auto
      with no have dw': "dropWhile (\<lambda>x. \<not> isspace x) (cs @ ws) = ws"
        by (simp add: dropWhile_append2)
      from False show ?thesis
        by (simp add: tw dw tw' dw' str_split_spaces[OF 2(3)])
    qed
  qed
qed

lemma str_split_strip: "str_split (str_strip v) = str_split v"
proof -
  let ?a = "dropWhile isspace v"
  have "rev (takeWhile isspace (rev ?a) @ dropWhile isspace (rev ?a)) = ?a"
    by (simp only: takeWhile_dropWhile_id rev_rev_ident)
  then have a: "str_strip v @ rev (takeWhile isspace (rev ?a)) = ?a"
    by (simp only: rev_append str_strip_def)
  have "\<forall>x \<in> set (rev (takeWhile isspace (rev ?a))). isspace x"
    by (auto dest: set_takeWhileD)
  then have "str_split (str_strip v @ rev (takeWhile isspace (rev ?a))) = str_split (str_strip v)"
    by (rule str_split_trailing)
  then show ?thesis by (simp only: a str_split_lstrip)
qed

lemma validate_summary_idem:
  assumes "validate_summary v = Inr s"
  shows "validate_summary s = Inr s"
proof -
  from assms have s: "s = str_strip v" and l: "10 \<le> length (str_strip v)"
    and w: "2 \<le> length (str_split v)"
    and vw: "length (str_split v) \<le> 2 * length (filter valid_word (str_split v))"
    by (auto simp: validate_summary_def Let_def split: if_splits)
  from l have "str_strip v \<noteq> []" by auto
  with l w vw show ?thesis
    by (simp add: s validate_summary_def str_strip_idem str_split_strip Let_def)
qed

lemma validate_description_idem:
  assumes "validate_description v = Inr d"
  shows "validate_description d = Inr d"
proof -
  from assms have d: "d = str_strip v" and l: "20 \<le> length (str_strip v)"
    by (auto simp: validate_description_def split: if_splits)
  from l have "str_strip v \<noteq> []" by auto
  with l show ?thesis by (simp add: d validate_description_def str_strip_idem)
qed

lemma validate_priority_idem: "validate_priority (validate_priority p) = validate_priority p"
proof (cases "map_of priority_map (str_lower (str_strip p))")
  case None
  then show ?thesis by (simp add: validate_priority_def str_strip_idem)
next
  case (Some x)
  then have "(str_lower (str_strip p), x) \<in> set priority_map" by (rule map_of_SomeD)
  then have "x \<in> snd ` set priority_map" by force
  then have "validate_priority x = x"
    by (auto simp: priority_map_def validate_priority_def str_strip_def str_lower_def
        char_class_defs)
  with Some show ?thesis by (simp add: validate_priority_def)
qed

lemma validate_type_idem: "validate_type (validate_type ty) = validate_type ty"
proof (cases "map_of type_map (str_lower (str_strip ty))")
  case None
  then show ?thesis by (simp add: validate_type_def str_strip_idem)
next
  case (Some x)
  then have "(str_lower (str_strip ty), x) \<in> set type_map" by (rule map_of_SomeD)
  then have "x \<in> snd ` set type_map" by force
  then have "validate_type x = x"
    by (auto simp: type_map_def validate_type_def str_strip_def str_lower_def char_class_defs)
  with Some show ?thesis by (simp add: validate_type_def)
qed

text \<open>Every task that the constructor returns is a validated task.\<close>

lemma init_validated:
  assumes "JiraTaskSuggestion_init s d p ty a account_id ls related = Inr t"
  shows "validated t"
proof -
  from assms obtain s' d' where s': "validate_summary s = Inr s'"
    and d': "validate_description d = Inr d'"
    and t: "t = \<lparr>summary = s', description = d', priority = validate_priority p,
             type = validate_type ty, assignee = a, assignee_account_id = account_id,
             labels = ls, related_issues = related\<rparr>"
    by (auto simp: JiraTaskSuggestion_init_def split: sum.splits)
  show ?thesis
    unfolding validated_def JiraTaskSuggestion_init_def t
    by (simp add: validate_summary_idem[OF s'] validate_description_idem[OF d']
        validate_priority_idem validate_type_idem)
qed

lemma post_process_tasks_output:
  assumes "\<forall>t \<in> set tasks. validated t" and "u \<in> set (post_process_tasks tasks)"
  shows "type u \<noteq> ''Epic'' \<and> first_word (summary u) \<in> set action_verbs \<and>
         summary u \<noteq> [] \<and> hd (summary u) \<in> set ascii_uppercase"
  using assms
proof (induction tasks)
  case Nil
  then show ?case by simp
next
  case (Cons t tasks)
  from Cons.prems(2) consider "u \<in> set (post_process_task t)"
    | "u \<in> set (post_process_tasks tasks)" by auto
  then show ?case
  proof cases
    case 1
    with Cons.prems(1) show ?thesis by (intro post_process_task_output[of t]) simp_all
  next
    case 2
    with Cons show ?thesis by simp
  qed
qed

lemmas text_eval_defs =
  str_strip_def str_lower_def startswith_def first_word_def capitalize_def char_class_defs

lemma example_summary:
  "validate_summary ''bug in login flow'' = Inr ''bug in login flow''"
  "validate_type ''epic'' = ''Epic''"
  "is_valid_english ''bug in login flow''"
  "with_verb ''Epic'' ''bug in login flow'' = ''Address bug in login flow''"
  "capitalize ''Address bug in login flow'' = ''Address bug in login flow''"
  "fix_type ''Epic'' ''Address bug in login flow'' = ''Bug''"
  "first_word ''Address bug in login flow'' = ''address''"
  by (simp_all add: validate_summary_def valid_word_def validate_type_def type_map_def
      is_valid_english_def common_words_def with_verb_def action_verbs_def fix_type_def
      text_eval_defs Let_def)

text \<open>
  C6. The tasks that reach \<^verbatim>\<open>_post_process_tasks\<close> are instances of \<^verbatim>\<open>JiraTaskSuggestion\<close>,
  which its constructor has validated (\<open>init_validated\<close>). For every list of such tasks
  no output task has type \<^verbatim>\<open>Epic\<close>, and the summary of every output task starts with an
  action verb and a capital letter. A task constructed with type \<^verbatim>\<open>epic\<close> and summary
  \<^verbatim>\<open>bug in login flow\<close>, whatever its other fields, has type \<^verbatim>\<open>Epic\<close> and comes out as one
  task of type \<^verbatim>\<open>Bug\<close> with the summary \<^verbatim>\<open>Address bug in login flow\<close>.
\<close>

theorem post_process_tasks_never_epic:
  "((\<forall>t \<in> set tasks. validated t) \<longrightarrow>
      (\<forall>u \<in> set (post_process_tasks tasks).
          type u \<noteq> ''Epic'' \<and> first_word (summary u) \<in> set action_verbs \<and>
          summary u \<noteq> [] \<and> hd (summary u) \<in> set ascii_uppercase)) \<and>
   (JiraTaskSuggestion_init ''bug in login flow'' d p ''epic'' a account_id ls related = Inr t \<longrightarrow>
      validated t \<and> type t = ''Epic'' \<and>
      (\<exists>u. post_process_tasks [t] = [u] \<and> type u = ''Bug'' \<and>
           summary u = ''Address bug in login flow'' \<and>
           first_word (summary u) \<in> set action_verbs \<and>
           hd (summary u) \<in> set ascii_uppercase))"
proof (intro conjI impI)
  assume "\<forall>t \<in> set tasks. validated t"
  then show "\<forall>u \<in> set (post_process_tasks tasks).
          type u \<noteq> ''Epic'' \<and> first_word (summary u) \<in> set action_verbs \<and>
          summary u \<noteq> [] \<and> hd (summary u) \<in> set ascii_uppercase"
    using post_process_tasks_output by blast
next
  assume init: "JiraTaskSuggestion_init ''bug in login flow'' d p ''epic'' a account_id ls related = Inr t"
  then show v: "validated t" by (rule init_validated)
  from init have s: "summary t = ''bug in login flow''" and ty: "type t = ''Epic''"
    by (auto simp: JiraTaskSuggestion_init_def example_summary split: sum.splits)
  show "type t = ''Epic''" by (rule ty)
  have "post_process_tasks [t] = post_process_task t" by simp
  also have "\<dots> =
      [\<lparr>summary = ''Address bug in login flow'', description = description t,
        priority = validate_priority (fix_priority (priority t) (description t)),
        type = ''Bug'', assignee = assignee t, assignee_account_id = assignee_account_id t,
        labels = labels t, related_issues = related_issues t\<rparr>]"
    by (simp add: post_process_task_validated[OF v] s ty example_summary validate_type_fixed)
  finally show "\<exists>u. post_process_tasks [t] = [u] \<and> type u = ''Bug'' \<and>
           summary u = ''Address bug in login flow'' \<and>
           first_word (summary u) \<in> set action_verbs \<and>
           hd (summary u) \<in> set ascii_uppercase"
    by (simp add: example_summary verbs_are_action_verbs ascii_uppercase_def)
qed

theorem post_process_tasks_never_epic_witness:
  "JiraTaskSuggestion_init ''bug in login flow'' ''Users cannot log in after the update''
     ''medium'' ''epic'' ''Unassigned'' None None None = Inr example_task \<and>
   validated example_task \<and>
   post_process_tasks [example_task] =
     [example_task\<lparr>summary := ''Address bug in login flow'', type := ''Bug''\<rparr>]"
proof -
  have init: "JiraTaskSuggestion_init ''bug in login flow'' ''Users cannot log in after the update''
     ''medium'' ''epic'' ''Unassigned'' None None None = Inr example_task"
    by (simp add: JiraTaskSuggestion_init_def example_summary validate_description_def
        validate_priority_def priority_map_def example_task_def text_eval_defs)
  have run: "post_process_tasks [example_task] =
     [example_task\<lparr>summary := ''Address bug in login flow'', type := ''Bug''\<rparr>]"
    using post_process_tasks_never_epic[where t = example_task and tasks = "[example_task]"
        and d = "''Users cannot log in after the update''" and p = "''medium''"
        and a = "''Unassigned''" and account_id = None and ls = None and related = None] init
    by (simp add: post_process_task_validated example_summary validate_type_fixed
        validate_priority_def priority_map_def fix_priority_def example_task_def text_eval_defs)
  from post_process_tasks_never_epic[where t = example_task and tasks = "[example_task]"
        and d = "''Users cannot log in after the update''" and p = "''medium''"
        and a = "''Unassigned''" and account_id = None and ls = None and related = None] init run
  show ?thesis by simp
qed

text \<open>
  The hypothesis is needed: a record that no constructor produced, with the type
  \<^verbatim>\<open>epic\<close> between spaces, is not recognised as an epic and the constructor of the
  cleaned task then normalises its type to \<^verbatim>\<open>Epic\<close>.
\<close>

lemma unvalidated_task_stays_epic:
  "\<not> validated (example_task\<lparr>type := '' epic ''\<rparr>) \<and>
   map type (post_process_tasks [example_task\<lparr>type := '' epic ''\<rparr>]) = [''Epic'']"
  by (simp add: validated_def post_process_task_def JiraTaskSuggestion_init_def example_summary
      validate_description_def validate_priority_def priority_map_def fix_priority_def
      validate_type_def type_map_def with_verb_def fix_type_def action_verbs_def
      validate_summary_def valid_word_def example_task_def text_eval_defs)

end
